theory Spec2Isabelle
  imports Complex_Main "HOL-Library.Sublist"
begin

section \<open>Collaborators imported from f\_func\<close>

text \<open>
  The file \<^verbatim>\<open>src/lib/l3/complex/csymm.ts\<close> holds the two routines \<^verbatim>\<open>csymm\<close> and
  \<^verbatim>\<open>ssymm\<close>. Both import \<^verbatim>\<open>Complex\<close>, \<^verbatim>\<open>errMissingIm\<close>, \<^verbatim>\<open>errWrongArg\<close>,
  \<^verbatim>\<open>lowerChar\<close> and \<^verbatim>\<open>Matrix\<close> from \<^verbatim>\<open>f_func\<close>, which is not among the sources.
  The routines only use these through a few members, which are modelled here.

  The element type \<open>'a\<close> of the buffers and scalars is left open: the routines only add,
  subtract and multiply elements and compare scalars with \<open>0\<close> and \<open>1\<close>, so the
  definitions ask for these operations and for no law about them. The general theorems
  therefore hold whatever the arithmetic is; the concrete scenarios are evaluated at
  type \<open>real\<close>, on small integers, where JavaScript's numbers compute the same values.
  The tests \<^verbatim>\<open>alpha === 0\<close>, \<^verbatim>\<open>beta === 1\<close> are equalities of the model. The
  dimensions \<^verbatim>\<open>m\<close>, \<^verbatim>\<open>n\<close> and the leading dimensions are integers, and the two
  selectors are strings: TypeScript's types \<^verbatim>\<open>'l' | 'r'\<close> and \<^verbatim>\<open>'u' | 'l'\<close> are
  not checked when the code runs, and both routines test the selectors themselves.
\<close>

text \<open>A complex scalar: the routines read \<^verbatim>\<open>alpha.re\<close>, \<^verbatim>\<open>alpha.im\<close>.\<close>

record 'a Complex =
  re :: 'a
  im :: 'a

text \<open>
  The two errors the routines throw. \<^verbatim>\<open>errMissingIm(name)\<close> and
  \<^verbatim>\<open>errWrongArg(routine, info)\<close> render a message; the model keeps their arguments.
\<close>

datatype error = MissingIm string | WrongArg string int

text \<open>
  Modelled from the spec: the \<^verbatim>\<open>Matrix\<close> object of \<^verbatim>\<open>f_func\<close> is missing from the
  sources. Spec section 3: a view over a dense column-major buffer plus a leading
  dimension, with a second parallel buffer for the imaginary parts that is absent for a
  real matrix; element (row i, column j) is at buffer offset \<open>(j - 1) * ld + i\<close>.
  A buffer is a store from offsets to elements. The size of a buffer is the caller's
  obligation (spec section 4.3) and is not part of the model. The matrices \<^verbatim>\<open>a\<close>,
  \<^verbatim>\<open>b\<close>, \<^verbatim>\<open>c\<close> are three values: a call that passes one object twice is outside the
  model (spec section 9 leaves it undefined).
\<close>

record 'a Matrix =
  r_buf :: "int \<Rightarrow> 'a"
  i_buf :: "(int \<Rightarrow> 'a) option"
  ld :: int

text \<open>
  Modelled from the spec: \<^verbatim>\<open>colOfEx(j)\<close> is the column-offset accessor, so that
  \<^verbatim>\<open>colOfEx(j) + i\<close> is the offset of element (i, j).
\<close>

definition colOfEx :: "'a Matrix \<Rightarrow> int \<Rightarrow> int" where
  "colOfEx M j = (j - 1) * ld M"

definition fill :: "(int \<Rightarrow> 'a) \<Rightarrow> int \<Rightarrow> int \<Rightarrow> 'a \<Rightarrow> int \<Rightarrow> 'a" where
  "fill buf lo hi v = (\<lambda>k. if lo \<le> k \<and> k \<le> hi then v else buf k)"

text \<open>
  Modelled from the spec: \<^verbatim>\<open>setCol(col, rowStart, rowEnd, value)\<close> overwrites the
  rows \<open>rowStart..rowEnd\<close> of a column with a value, in the real buffer and, when there
  is one, in the imaginary buffer (spec section 4.2: both parts are zeroed).
\<close>

definition setCol :: "'a Matrix \<Rightarrow> int \<Rightarrow> int \<Rightarrow> int \<Rightarrow> 'a \<Rightarrow> 'a Matrix" where
  "setCol M col rowStart rowEnd v =
     (let coords = colOfEx M col in
      M\<lparr>r_buf := fill (r_buf M) (coords + rowStart) (coords + rowEnd) v,
        i_buf := map_option (\<lambda>buf. fill buf (coords + rowStart) (coords + rowEnd) v) (i_buf M)\<rparr>)"

text \<open>
  \<^verbatim>\<open>M.i[k]\<close> and the two element writes \<^verbatim>\<open>M.r[k] = v\<close>, \<^verbatim>\<open>M.i[k] = v\<close>.
  \<open>i_at\<close> and \<open>set_i\<close> are only reached in \<^verbatim>\<open>csymm\<close>, after it has checked that the
  imaginary buffers of all three matrices are there.
\<close>

definition i_at :: "'a Matrix \<Rightarrow> int \<Rightarrow> 'a" where
  "i_at M k = the (i_buf M) k"

definition set_r :: "'a Matrix \<Rightarrow> int \<Rightarrow> 'a \<Rightarrow> 'a Matrix" where
  "set_r M k v = M\<lparr>r_buf := (r_buf M)(k := v)\<rparr>"

definition set_i :: "'a Matrix \<Rightarrow> int \<Rightarrow> 'a \<Rightarrow> 'a Matrix" where
  "set_i M k v = M\<lparr>i_buf := Some ((the (i_buf M))(k := v))\<rparr>"

text \<open>
  Modelled from the spec: \<^verbatim>\<open>lowerChar\<close> is the selector-normalisation helper of
  spec section 6; it lower-cases the ASCII letters of the token.
\<close>

fun lower :: "char \<Rightarrow> char" where
  "lower (Char b0 b1 b2 b3 b4 b5 b6 b7) =
     (if 65 \<le> (of_char (Char b0 b1 b2 b3 b4 b5 b6 b7) :: nat)
         \<and> (of_char (Char b0 b1 b2 b3 b4 b5 b6 b7) :: nat) \<le> 90
      then Char b0 b1 b2 b3 b4 True b6 b7
      else Char b0 b1 b2 b3 b4 b5 b6 b7)"

definition lowerChar :: "string \<Rightarrow> string" where
  "lowerChar s = map lower s"

text \<open>JavaScript's \<^verbatim>\<open>s.includes(t)\<close>: \<open>t\<close> occurs in \<open>s\<close> as a contiguous substring.\<close>

fun str_includes :: "string \<Rightarrow> string \<Rightarrow> bool" where
  "str_includes [] t = (t = [])"
| "str_includes (x # xs) t = (prefix t (x # xs) \<or> str_includes xs t)"

text \<open>
  What a call leaves behind: it returns, or it throws; either way with the state of the
  matrix \<^verbatim>\<open>c\<close> at that moment, the only object the routines write to.
\<close>

datatype 'a outcome = Returned "'a Matrix" | Thrown error "'a Matrix"

section \<open>Loops\<close>

text \<open>
  A counting loop \<^verbatim>\<open>for (let j = lo; j <= hi; j++)\<close> whose body leaves \<open>j\<close> alone is
  \<open>fold body [lo..hi]\<close>, and the descending loop over the same range folds over the
  reversed list. The one loop of the file whose exit test does not bound the counter is
  a \<open>while_loop\<close>: the value \<open>None\<close> stands for a loop that never exits.
\<close>

partial_function (option) while_loop :: "('s \<Rightarrow> bool) \<Rightarrow> ('s \<Rightarrow> 's) \<Rightarrow> 's \<Rightarrow> 's option" where
  "while_loop cond body s = (if cond s then while_loop cond body (body s) else Some s)"

fun fold_option :: "('x \<Rightarrow> 's \<Rightarrow> 's option) \<Rightarrow> 'x list \<Rightarrow> 's \<Rightarrow> 's option" where
  "fold_option f [] s = Some s"
| "fold_option f (x # xs) s = (case f x s of None \<Rightarrow> None | Some s' \<Rightarrow> fold_option f xs s')"

section \<open>ssymm: the real routine\<close>

subsection \<open>Argument checks (lines 297-321)\<close>

definition ssymm_info :: "string \<Rightarrow> string \<Rightarrow> int \<Rightarrow> int \<Rightarrow> int \<Rightarrow> int \<Rightarrow> int \<Rightarrow> int \<Rightarrow> int" where
  "ssymm_info si ul m n nrowA lda ldb ldc =
     (if si \<noteq> ''l'' \<and> si \<noteq> ''r'' then 1
      else if ul \<noteq> ''u'' \<and> ul \<noteq> ''l'' then 2
      else if m < 0 then 3
      else if n < 0 then 4
      else if lda < max 1 nrowA then 7
      else if ldb < max 1 m then 9
      else if ldc < max 1 m then 12
      else 0)"

subsection \<open>alpha = 0 (lines 330-345)\<close>

definition ssymm_alpha_zero ::
  "int \<Rightarrow> int \<Rightarrow> 'a \<Rightarrow> ('a::{zero,one,plus,minus,times}) Matrix \<Rightarrow> 'a Matrix" where
  "ssymm_alpha_zero m n beta c =
     (if beta = 0 then fold (\<lambda>j c. setCol c j 1 m 0) [1..n] c
      else fold (\<lambda>j c.
             let coords = colOfEx c j in
             fold (\<lambda>i c. set_r c (coords + i) (r_buf c (coords + i) * beta)) [1..m] c)
           [1..n] c)"

subsection \<open>side = left, upper triangle (lines 350-370)\<close>

definition ssymm_lu_k ::
  "('a::{zero,one,plus,minus,times}) Matrix \<Rightarrow> 'a Matrix \<Rightarrow> int \<Rightarrow> int \<Rightarrow> int \<Rightarrow> 'a \<Rightarrow> int
     \<Rightarrow> 'a Matrix \<times> 'a \<Rightarrow> 'a Matrix \<times> 'a" where
  "ssymm_lu_k a b coorAI coorBJ coorCJ temp1 k s =
     (case s of (c, temp2) \<Rightarrow>
        (set_r c (coorCJ + k) (r_buf c (coorCJ + k) + temp1 * r_buf a (coorAI + k)),
         temp2 + r_buf b (coorBJ + k) * r_buf a (coorAI + k)))"

definition ssymm_lu_i ::
  "'a \<Rightarrow> 'a \<Rightarrow> ('a::{zero,one,plus,minus,times}) Matrix \<Rightarrow> 'a Matrix \<Rightarrow> int \<Rightarrow> int \<Rightarrow> int
     \<Rightarrow> 'a Matrix \<Rightarrow> 'a Matrix" where
  "ssymm_lu_i alpha beta a b coorBJ coorCJ i c =
     (let coorAI = colOfEx a i;
          temp1 = alpha * r_buf b (coorBJ + i);
          s = fold (ssymm_lu_k a b coorAI coorBJ coorCJ temp1) [1..i - 1] (c, 0);
          c' = fst s;
          temp2 = snd s;
          re = temp1 * r_buf a (coorAI + i) + alpha * temp2;
          re' = (if beta \<noteq> 0 then re + beta * r_buf c' (coorCJ + i) else re)
      in set_r c' (coorCJ + i) re')"

definition ssymm_left_upper ::
  "int \<Rightarrow> int \<Rightarrow> 'a \<Rightarrow> 'a \<Rightarrow> ('a::{zero,one,plus,minus,times}) Matrix \<Rightarrow> 'a Matrix
     \<Rightarrow> 'a Matrix \<Rightarrow> 'a Matrix" where
  "ssymm_left_upper m n alpha beta a b c =
     fold (\<lambda>j c.
        let coorBJ = colOfEx b j;
            coorCJ = colOfEx c j
        in fold (ssymm_lu_i alpha beta a b coorBJ coorCJ) [1..m] c)
      [1..n] c"

subsection \<open>side = left, lower triangle (lines 371-390)\<close>

definition ssymm_ll_k ::
  "('a::{zero,one,plus,minus,times}) Matrix \<Rightarrow> 'a Matrix \<Rightarrow> int \<Rightarrow> int \<Rightarrow> int \<Rightarrow> 'a \<Rightarrow> int
     \<Rightarrow> 'a Matrix \<times> 'a \<Rightarrow> 'a Matrix \<times> 'a" where
  "ssymm_ll_k a b coorAI coorBJ coorCJ temp1 k s =
     (case s of (c, temp2) \<Rightarrow>
        (set_r c (coorCJ + k) (r_buf c (coorCJ + k) + temp1 * r_buf a (coorAI + k)),
         temp2 + r_buf b (coorBJ + k) * r_buf a (coorAI + k)))"

definition ssymm_ll_i ::
  "int \<Rightarrow> 'a \<Rightarrow> 'a \<Rightarrow> ('a::{zero,one,plus,minus,times}) Matrix \<Rightarrow> 'a Matrix \<Rightarrow> int \<Rightarrow> int \<Rightarrow> int
     \<Rightarrow> 'a Matrix \<Rightarrow> 'a Matrix" where
  "ssymm_ll_i m alpha beta a b coorBJ coorCJ i c =
     (let coorAI = colOfEx a i;
          temp1 = alpha * r_buf b (coorBJ + i);
          s = fold (ssymm_ll_k a b coorAI coorBJ coorCJ temp1) [i + 1..m] (c, 0);
          c' = fst s;
          temp2 = snd s;
          re = temp1 * r_buf a (coorAI + i) + alpha * temp2;
          re' = (if beta \<noteq> 0 then re + beta * r_buf c' (coorCJ + i) else re)
      in set_r c' (coorCJ + i) re')"

text \<open>Line 374 takes the column offset into \<^verbatim>\<open>c\<close> from \<^verbatim>\<open>b\<close>: \<^verbatim>\<open>const coorCJ = b.colOfEx(j)\<close>.\<close>

definition ssymm_left_lower ::
  "int \<Rightarrow> int \<Rightarrow> 'a \<Rightarrow> 'a \<Rightarrow> ('a::{zero,one,plus,minus,times}) Matrix \<Rightarrow> 'a Matrix
     \<Rightarrow> 'a Matrix \<Rightarrow> 'a Matrix" where
  "ssymm_left_lower m n alpha beta a b c =
     fold (\<lambda>j c.
        let coorBJ = colOfEx b j;
            coorCJ = colOfEx b j
        in fold (ssymm_ll_i m alpha beta a b coorBJ coorCJ) (rev [1..m]) c)
      [1..n] c"

subsection \<open>side = right (lines 392-433)\<close>

definition ssymm_right_add ::
  "int \<Rightarrow> ('a::{zero,one,plus,minus,times}) Matrix \<Rightarrow> int \<Rightarrow> int \<Rightarrow> 'a \<Rightarrow> 'a Matrix \<Rightarrow> 'a Matrix" where
  "ssymm_right_add m b coorBK coorCJ temp1 c =
     fold (\<lambda>i c. set_r c (coorCJ + i) (r_buf c (coorCJ + i) + temp1 * r_buf b (coorBK + i)))
       [1..m] c"

text \<open>Lines 403-414: the loop that seeds column \<open>j\<close> of \<^verbatim>\<open>c\<close>.\<close>

definition ssymm_right_seed ::
  "int \<Rightarrow> 'a \<Rightarrow> ('a::{zero,one,plus,minus,times}) Matrix \<Rightarrow> int \<Rightarrow> int \<Rightarrow> 'a \<Rightarrow> 'a Matrix \<Rightarrow> 'a Matrix" where
  "ssymm_right_seed m beta b coorBJ coorCJ temp1 c =
     (if beta = 0
      then fold (\<lambda>i c. set_r c (coorCJ + i) (temp1 * r_buf b (coorBJ + i))) [1..m] c
      else fold (\<lambda>i c. set_r c (coorCJ + i)
                   (beta * r_buf c (coorCJ + i) + temp1 * r_buf b (coorBJ + i)))
             [1..m] c)"

text \<open>One pass of the loop over \<open>j\<close> (lines 394-432).\<close>

definition ssymm_right_j ::
  "string \<Rightarrow> int \<Rightarrow> int \<Rightarrow> 'a \<Rightarrow> 'a \<Rightarrow> ('a::{zero,one,plus,minus,times}) Matrix \<Rightarrow> 'a Matrix
     \<Rightarrow> int \<Rightarrow> 'a Matrix \<Rightarrow> 'a Matrix" where
  "ssymm_right_j ul m n alpha beta a b j c =
     (let coorAJ = colOfEx a j;
          coorCJ = colOfEx c j;
          coorBJ = colOfEx b j;
          temp1 = alpha * r_buf a (coorAJ + j);
          c1 = ssymm_right_seed m beta b coorBJ coorCJ temp1 c;
          c2 = fold (\<lambda>k c.
                  let coorAK = colOfEx a k;
                      coorBK = colOfEx b k;
                      temp1 = alpha * (if ul = ''u'' then r_buf a (coorAJ + k)
                                       else r_buf a (coorAK + j))
                  in ssymm_right_add m b coorBK coorCJ temp1 c)
                [1..j - 1] c1;
          c3 = fold (\<lambda>k c.
                  let coorAK = colOfEx a k;
                      coorBK = colOfEx b k;
                      temp1 = alpha * (if ul = ''u'' then r_buf a (coorAK + j)
                                       else r_buf a (coorAJ + k))
                  in ssymm_right_add m b coorBK coorCJ temp1 c)
                [j + 1..n] c2
      in c3)"

definition ssymm_right ::
  "string \<Rightarrow> int \<Rightarrow> int \<Rightarrow> 'a \<Rightarrow> 'a \<Rightarrow> ('a::{zero,one,plus,minus,times}) Matrix \<Rightarrow> 'a Matrix
     \<Rightarrow> 'a Matrix \<Rightarrow> 'a Matrix" where
  "ssymm_right ul m n alpha beta a b c = fold (ssymm_right_j ul m n alpha beta a b) [1..n] c"

subsection \<open>The routine (lines 275-434)\<close>

definition ssymm ::
  "string \<Rightarrow> string \<Rightarrow> int \<Rightarrow> int \<Rightarrow> 'a \<Rightarrow> ('a::{zero,one,plus,minus,times}) Matrix \<Rightarrow> int
     \<Rightarrow> 'a Matrix \<Rightarrow> int \<Rightarrow> 'a \<Rightarrow> 'a Matrix \<Rightarrow> int \<Rightarrow> 'a outcome" where
  "ssymm side uplo m n alpha a lda b ldb beta c ldc =
     (let si = lowerChar side;
          ul = lowerChar uplo;
          nrowA = (if si = ''l'' then m else n);
          info = ssymm_info si ul m n nrowA lda ldb ldc
      in if info \<noteq> 0 then Thrown (WrongArg ''ssymm'' info) c
         else if m = 0 \<or> n = 0 \<or> (alpha = 0 \<and> beta = 1) then Returned c
         else if alpha = 0 then Returned (ssymm_alpha_zero m n beta c)
         else if si = ''l'' then
           (if ul = ''u'' then Returned (ssymm_left_upper m n alpha beta a b c)
            else Returned (ssymm_left_lower m n alpha beta a b c))
         else Returned (ssymm_right ul m n alpha beta a b c))"

section \<open>csymm: the complex routine\<close>

subsection \<open>Argument checks (lines 61-86)\<close>

text \<open>Line 66 reads \<^verbatim>\<open>else if ('ul'.includes(ul))\<close>, with no negation.\<close>

definition csymm_info :: "string \<Rightarrow> string \<Rightarrow> int \<Rightarrow> int \<Rightarrow> int \<Rightarrow> int \<Rightarrow> int \<Rightarrow> int \<Rightarrow> int" where
  "csymm_info si ul m n nrowA lda ldb ldc =
     (if \<not> str_includes ''lr'' si then 1
      else if str_includes ''ul'' ul then 2
      else if m < 0 then 3
      else if n < 0 then 4
      else if lda < max 1 nrowA then 7
      else if ldb < max 1 m then 9
      else if ldc < max 1 m then 12
      else 0)"

subsection \<open>alpha = 0 (lines 97-115)\<close>

text \<open>Line 98 zeroes \<^verbatim>\<open>c\<close> under \<^verbatim>\<open>if (!betaIsZero)\<close> and scales it by beta otherwise.\<close>

definition csymm_alpha_zero ::
  "int \<Rightarrow> int \<Rightarrow> 'a Complex \<Rightarrow> bool \<Rightarrow> ('a::{zero,one,plus,minus,times}) Matrix \<Rightarrow> 'a Matrix" where
  "csymm_alpha_zero m n beta betaIsZero c =
     (if \<not> betaIsZero then fold (\<lambda>j c. setCol c j 1 m 0) [1..n] c
      else fold (\<lambda>j c.
             let coorCJ = colOfEx c j in
             fold (\<lambda>i c.
                let re0 = re beta * r_buf c (coorCJ + i) - im beta * i_at c (coorCJ + i);
                    im0 = re beta * i_at c (coorCJ + i) + im beta * r_buf c (coorCJ + i)
                in set_i (set_r c (coorCJ + i) re0) (coorCJ + i) im0)
              [1..m] c)
           [1..n] c)"

subsection \<open>side = left, upper triangle (lines 121-155)\<close>

definition csymm_lu_k ::
  "('a::{zero,one,plus,minus,times}) Matrix \<Rightarrow> 'a Matrix \<Rightarrow> int \<Rightarrow> int \<Rightarrow> int \<Rightarrow> 'a \<Rightarrow> 'a \<Rightarrow> int
     \<Rightarrow> 'a Matrix \<times> 'a \<times> 'a \<Rightarrow> 'a Matrix \<times> 'a \<times> 'a" where
  "csymm_lu_k a b coorAI coorBJ coorCJ temp1Re temp1Im k s =
     (case s of (c, temp2Re, temp2Im) \<Rightarrow>
        let c1 = set_r c (coorCJ + k)
                   (r_buf c (coorCJ + k)
                    + (temp1Re * r_buf a (coorAI + k) - temp1Im * i_at a (coorAI + k)));
            c2 = set_i c1 (coorCJ + k)
                   (i_at c1 (coorCJ + k)
                    + (temp1Re * i_at a (coorAI + k) + temp1Im * r_buf a (coorAI + k)))
        in (c2,
            temp2Re + (r_buf b (coorBJ + k) * r_buf a (coorAI + k)
                       - i_at b (coorBJ + k) * i_at a (coorAI + k)),
            temp2Im + (r_buf b (coorBJ + k) * i_at a (coorAI + k)
                       + i_at b (coorBJ + k) * r_buf a (coorAI + k))))"

definition csymm_lu_i ::
  "'a Complex \<Rightarrow> 'a Complex \<Rightarrow> bool \<Rightarrow> ('a::{zero,one,plus,minus,times}) Matrix \<Rightarrow> 'a Matrix
     \<Rightarrow> int \<Rightarrow> int \<Rightarrow> int \<Rightarrow> 'a Matrix \<Rightarrow> 'a Matrix" where
  "csymm_lu_i alpha beta betaIsZero a b coorBJ coorCJ i c =
     (let coorAI = colOfEx a i;
          temp1Re = re alpha * r_buf b (coorBJ + i) - im alpha * i_at b (coorBJ + i);
          temp1Im = re alpha * i_at b (coorBJ + i) + im alpha * r_buf b (coorBJ + i);
          s = fold (csymm_lu_k a b coorAI coorBJ coorCJ temp1Re temp1Im) [1..i - 1] (c, 0, 0);
          c' = fst s;
          temp2Re = fst (snd s);
          temp2Im = snd (snd s);
          re0 = (temp1Re * r_buf a (coorAI + i) - temp1Im * i_at a (coorAI + i))
                + (re alpha * temp2Re - im alpha * temp2Im);
          im0 = (temp1Re * i_at a (coorAI + i) + temp1Im * r_buf a (coorAI + i))
                + (re alpha * temp2Im + im alpha * temp2Re);
          re1 = (if \<not> betaIsZero
                 then re0 + (re beta * r_buf c' (coorCJ + i) - im beta * i_at c' (coorCJ + i))
                 else re0);
          im1 = (if \<not> betaIsZero
                 then im0 + (re beta * i_at c' (coorCJ + i) + im beta * r_buf c' (coorCJ + i))
                 else im0)
      in set_i (set_r c' (coorCJ + i) re1) (coorCJ + i) im1)"

definition csymm_left_upper ::
  "int \<Rightarrow> int \<Rightarrow> 'a Complex \<Rightarrow> 'a Complex \<Rightarrow> bool \<Rightarrow> ('a::{zero,one,plus,minus,times}) Matrix
     \<Rightarrow> 'a Matrix \<Rightarrow> 'a Matrix \<Rightarrow> 'a Matrix" where
  "csymm_left_upper m n alpha beta betaIsZero a b c =
     fold (\<lambda>j c.
        let coorCJ = colOfEx c j;
            coorBJ = colOfEx b j
        in fold (csymm_lu_i alpha beta betaIsZero a b coorBJ coorCJ) [1..m] c)
      [1..n] c"

subsection \<open>side = left, lower triangle (lines 157-188)\<close>

text \<open>
  The body of the loop of line 168, \<^verbatim>\<open>for (let k = i + 1; k >= m; k++)\<close>, with its
  increment; the state is \<open>(k, c, temp2Re, temp2Im)\<close>. Line 174 multiplies
  \<^verbatim>\<open>b.r[coorBJ + k]\<close> in both products.
\<close>

definition csymm_ll_k ::
  "('a::{zero,one,plus,minus,times}) Matrix \<Rightarrow> 'a Matrix \<Rightarrow> int \<Rightarrow> int \<Rightarrow> int \<Rightarrow> 'a \<Rightarrow> 'a
     \<Rightarrow> int \<times> 'a Matrix \<times> 'a \<times> 'a \<Rightarrow> int \<times> 'a Matrix \<times> 'a \<times> 'a" where
  "csymm_ll_k a b coorAI coorBJ coorCJ temp1Re temp1Im s =
     (case s of (k, c, temp2Re, temp2Im) \<Rightarrow>
        let c1 = set_r c (coorCJ + k)
                   (r_buf c (coorCJ + k)
                    + (temp1Re * r_buf a (coorAI + k) - temp1Im * i_at a (coorAI + k)));
            c2 = set_i c1 (coorCJ + k)
                   (i_at c1 (coorCJ + k)
                    + (temp1Re * i_at a (coorAI + k) + temp1Im * r_buf a (coorAI + k)))
        in (k + 1, c2,
            temp2Re + (r_buf b (coorBJ + k) * r_buf a (coorAI + k)
                       - i_at b (coorBJ + k) * i_at a (coorAI + k)),
            temp2Im + (r_buf b (coorBJ + k) * i_at a (coorAI + k)
                       + r_buf b (coorBJ + k) * r_buf a (coorAI + k))))"

text \<open>
  One pass of the loop over \<open>i\<close>. Line 165 subtracts in \<^verbatim>\<open>temp1Im\<close>, and line 178
  multiplies \<^verbatim>\<open>temp1Re\<close> in both products of \<^verbatim>\<open>im\<close>.
\<close>

definition csymm_ll_i ::
  "int \<Rightarrow> 'a Complex \<Rightarrow> 'a Complex \<Rightarrow> bool \<Rightarrow> ('a::{zero,one,plus,minus,times}) Matrix \<Rightarrow> 'a Matrix
     \<Rightarrow> int \<Rightarrow> int \<Rightarrow> int \<Rightarrow> 'a Matrix \<Rightarrow> 'a Matrix option" where
  "csymm_ll_i m alpha beta betaIsZero a b coorBJ coorCJ i c =
     (let coorAI = colOfEx a i;
          temp1Re = re alpha * r_buf b (coorBJ + i) - im alpha * i_at b (coorBJ + i);
          temp1Im = re alpha * i_at b (coorBJ + i) - im alpha * r_buf b (coorBJ + i)
      in case while_loop (\<lambda>s. fst s \<ge> m) (csymm_ll_k a b coorAI coorBJ coorCJ temp1Re temp1Im)
                (i + 1, c, 0, 0) of
           None \<Rightarrow> None
         | Some s \<Rightarrow>
             let c' = fst (snd s);
                 temp2Re = fst (snd (snd s));
                 temp2Im = snd (snd (snd s));
                 re0 = (temp1Re * r_buf a (coorAI + i) - temp1Im * i_at a (coorAI + i))
                       + (re alpha * temp2Re - im alpha * temp2Im);
                 im0 = (temp1Re * i_at a (coorAI + i) + temp1Re * r_buf a (coorAI + i))
                       + (re alpha * temp2Im + im alpha * temp2Re);
                 re1 = (if \<not> betaIsZero
                        then re0 + (re beta * r_buf c' (coorCJ + i) - im beta * i_at c' (coorCJ + i))
                        else re0);
                 im1 = (if \<not> betaIsZero
                        then im0 + (re beta * i_at c' (coorCJ + i) + im beta * r_buf c' (coorCJ + i))
                        else im0)
             in Some (set_i (set_r c' (coorCJ + i) re1) (coorCJ + i) im1))"

definition csymm_left_lower ::
  "int \<Rightarrow> int \<Rightarrow> 'a Complex \<Rightarrow> 'a Complex \<Rightarrow> bool \<Rightarrow> ('a::{zero,one,plus,minus,times}) Matrix
     \<Rightarrow> 'a Matrix \<Rightarrow> 'a Matrix \<Rightarrow> 'a Matrix option" where
  "csymm_left_lower m n alpha beta betaIsZero a b c =
     fold_option (\<lambda>j c.
        let coorBJ = colOfEx b j;
            coorCJ = colOfEx c j
        in fold_option (csymm_ll_i m alpha beta betaIsZero a b coorBJ coorCJ) (rev [1..m]) c)
      [1..n] c"

subsection \<open>side = right (lines 191-247)\<close>

definition csymm_right_add ::
  "int \<Rightarrow> ('a::{zero,one,plus,minus,times}) Matrix \<Rightarrow> int \<Rightarrow> int \<Rightarrow> 'a \<Rightarrow> 'a \<Rightarrow> 'a Matrix
     \<Rightarrow> 'a Matrix" where
  "csymm_right_add m b coorBK coorCJ temp1Re temp1Im c =
     fold (\<lambda>i c.
        let c1 = set_r c (coorCJ + i)
                   (r_buf c (coorCJ + i)
                    + (temp1Re * r_buf b (coorBK + i) - temp1Im * i_at b (coorBK + i)))
        in set_i c1 (coorCJ + i)
             (i_at c1 (coorCJ + i)
              + (temp1Re * i_at b (coorBK + i) + temp1Im * r_buf b (coorBK + i))))
       [1..m] c"

text \<open>Lines 201-212: the loop that seeds column \<open>j\<close> of \<^verbatim>\<open>c\<close>.\<close>

definition csymm_right_seed ::
  "int \<Rightarrow> 'a Complex \<Rightarrow> bool \<Rightarrow> ('a::{zero,one,plus,minus,times}) Matrix \<Rightarrow> int \<Rightarrow> int \<Rightarrow> 'a \<Rightarrow> 'a
     \<Rightarrow> 'a Matrix \<Rightarrow> 'a Matrix" where
  "csymm_right_seed m beta betaIsZero b coorBJ coorCJ temp1Re temp1Im c =
     fold (\<lambda>i c.
        let re0 = temp1Re * r_buf b (coorBJ + i) - temp1Im * i_at b (coorBJ + i);
            im0 = temp1Re * i_at b (coorBJ + i) + temp1Im * r_buf b (coorBJ + i);
            re1 = (if \<not> betaIsZero
                   then re0 + (re beta * r_buf c (coorCJ + i) - im beta * i_at c (coorCJ + i))
                   else re0);
            im1 = (if \<not> betaIsZero
                   then im0 + (re beta * i_at c (coorCJ + i) + im beta * r_buf c (coorCJ + i))
                   else im0)
        in set_i (set_r c (coorCJ + i) re1) (coorCJ + i) im1)
      [1..m] c"

text \<open>
  One pass of the loop over \<open>j\<close> (lines 193-246). Lines 198-199 read the diagonal
  element of \<^verbatim>\<open>a\<close> at \<^verbatim>\<open>coorCJ + j\<close>, the column offset of \<^verbatim>\<open>c\<close>.
\<close>

definition csymm_right_j ::
  "bool \<Rightarrow> int \<Rightarrow> int \<Rightarrow> 'a Complex \<Rightarrow> 'a Complex \<Rightarrow> bool \<Rightarrow> ('a::{zero,one,plus,minus,times}) Matrix
     \<Rightarrow> 'a Matrix \<Rightarrow> int \<Rightarrow> 'a Matrix \<Rightarrow> 'a Matrix" where
  "csymm_right_j upper m n alpha beta betaIsZero a b j c =
     (let coorAJ = colOfEx a j;
          coorBJ = colOfEx b j;
          coorCJ = colOfEx c j;
          temp1Re = re alpha * r_buf a (coorCJ + j) - im alpha * i_at a (coorCJ + j);
          temp1Im = re alpha * i_at a (coorCJ + j) + im alpha * r_buf a (coorCJ + j);
          c1 = csymm_right_seed m beta betaIsZero b coorBJ coorCJ temp1Re temp1Im c;
          c2 = fold (\<lambda>k c.
                  let coorAK = colOfEx a k;
                      coorBK = colOfEx b k;
                      aRe = (if upper then r_buf a (coorAJ + k) else r_buf a (coorAK + j));
                      aIm = (if upper then i_at a (coorAJ + k) else i_at a (coorAK + j));
                      temp1Re = re alpha * aRe - im alpha * aIm;
                      temp1Im = re alpha * aIm + im alpha * aRe
                  in csymm_right_add m b coorBK coorCJ temp1Re temp1Im c)
                [1..j - 1] c1;
          c3 = fold (\<lambda>k c.
                  let coorAK = colOfEx a k;
                      coorBK = colOfEx b k;
                      aRe = (if upper then r_buf a (coorAK + j) else r_buf a (coorAJ + k));
                      aIm = (if upper then i_at a (coorAK + j) else i_at a (coorAJ + k));
                      temp1Re = re alpha * aRe - im alpha * aIm;
                      temp1Im = re alpha * aIm + im alpha * aRe
                  in csymm_right_add m b coorBK coorCJ temp1Re temp1Im c)
                [j + 1..n] c2
      in c3)"

definition csymm_right ::
  "bool \<Rightarrow> int \<Rightarrow> int \<Rightarrow> 'a Complex \<Rightarrow> 'a Complex \<Rightarrow> bool \<Rightarrow> ('a::{zero,one,plus,minus,times}) Matrix
     \<Rightarrow> 'a Matrix \<Rightarrow> 'a Matrix \<Rightarrow> 'a Matrix" where
  "csymm_right upper m n alpha beta betaIsZero a b c =
     fold (csymm_right_j upper m n alpha beta betaIsZero a b) [1..n] c"

subsection \<open>The routine (lines 27-248)\<close>

text \<open>
  The result \<open>None\<close> is a call that never comes back; \<open>Some (Thrown e c)\<close> and
  \<open>Some (Returned c')\<close> are the two ways it does.
\<close>

definition csymm ::
  "string \<Rightarrow> string \<Rightarrow> int \<Rightarrow> int \<Rightarrow> 'a Complex \<Rightarrow> ('a::{zero,one,plus,minus,times}) Matrix \<Rightarrow> int
     \<Rightarrow> 'a Matrix \<Rightarrow> int \<Rightarrow> 'a Complex \<Rightarrow> 'a Matrix \<Rightarrow> int \<Rightarrow> 'a outcome option" where
  "csymm side uplo m n alpha a lda b ldb beta c ldc =
     (if i_buf a = None then Some (Thrown (MissingIm ''a.i'') c)
      else if i_buf b = None then Some (Thrown (MissingIm ''b.i'') c)
      else if i_buf c = None then Some (Thrown (MissingIm ''c.i'') c)
      else
        let si = lowerChar side;
            ul = lowerChar uplo;
            nrowA = (if si = ''l'' then m else n);
            upper = (ul = ''u'');
            info = csymm_info si ul m n nrowA lda ldb ldc
        in if info \<noteq> 0 then Some (Thrown (WrongArg ''csymm'' info) c)
           else
             let alphaIsZero = (re alpha = 0 \<and> im alpha = 0);
                 betaIsOne = (re beta = 1 \<and> im beta = 0);
                 betaIsZero = (re beta = 0 \<and> im beta = 0)
             in if m = 0 \<or> n = 0 \<or> (alphaIsZero \<and> betaIsOne) then Some (Returned c)
                else if alphaIsZero
                  then Some (Returned (csymm_alpha_zero m n beta betaIsZero c))
                else if si = ''l'' then
                  (if upper
                   then Some (Returned (csymm_left_upper m n alpha beta betaIsZero a b c))
                   else map_option Returned
                          (csymm_left_lower m n alpha beta betaIsZero a b c))
                else Some (Returned (csymm_right upper m n alpha beta betaIsZero a b c)))"

section \<open>Two runs that differ in the buffer of c\<close>

text \<open>
  Two states of \<^verbatim>\<open>c\<close> agree on a set of offsets when they have the same leading
  dimension and the same real element at every offset of the set.
\<close>

definition agree_on :: "int set \<Rightarrow> 'a Matrix \<Rightarrow> 'a Matrix \<Rightarrow> bool" where
  "agree_on S c1 c2 = (ld c1 = ld c2 \<and> (\<forall>k\<in>S. r_buf c1 k = r_buf c2 k))"

section \<open>Supporting lemmas\<close>

lemma lowerChar_tokens:
  "lowerChar ''l'' = ''l''" "lowerChar ''r'' = ''r''" "lowerChar ''u'' = ''u''"
  "lowerChar ''x'' = ''x''" "lowerChar ''y'' = ''y''"
  "lowerChar ''L'' = ''l''" "lowerChar ''R'' = ''r''" "lowerChar ''U'' = ''u''"
  by (simp_all add: lowerChar_def)

text \<open>A loop whose test holds on an invariant that its body keeps never exits.\<close>

lemma while_loop_never_exits:
  assumes start: "I s" and step: "\<And>u. I u \<Longrightarrow> cond u \<and> I (body u)"
  shows "while_loop cond body s = None"
proof (rule ccontr)
  assume "while_loop cond body s \<noteq> None"
  then obtain t where t: "while_loop cond body s = Some t" by auto
  have "\<not> (c = cond \<and> b = body \<and> I s')" if "while_loop c b s' = Some t'" for c b s' t'
  proof (rule while_loop.raw_induct
      [where P = "\<lambda>c b s' t'. \<not> (c = cond \<and> b = body \<and> I s')", OF _ that])
    fix w c b s' t'
    assume IH: "\<And>c b s' t'. w c b s' = Some t' \<Longrightarrow> \<not> (c = cond \<and> b = body \<and> I s')"
      and eq: "(if c s' then w c b (b s') else Some s') = Some t'"
    show "\<not> (c = cond \<and> b = body \<and> I s')"
    proof
      assume a: "c = cond \<and> b = body \<and> I s'"
      with step[of s'] have "cond s'" "I (body s')" by auto
      with eq a have "w cond body (body s') = Some t'" by simp
      from IH[OF this] \<open>I (body s')\<close> show False by simp
    qed
  qed
  with t start show False by blast
qed

text \<open>
  Line 168: the loop starts at \<open>k = i + 1\<close> and runs while \<open>k \<ge> m\<close>, counting up.
  When \<open>m \<le> i + 1\<close> the test holds at the start and after every increment.
\<close>

lemma csymm_ll_i_never_returns:
  assumes le: "m \<le> i + 1"
  shows "csymm_ll_i m alpha beta betaIsZero a b coorBJ coorCJ i c = None"
proof -
  have "while_loop (\<lambda>s. fst s \<ge> m) (csymm_ll_k a b (colOfEx a i) coorBJ coorCJ t1 t2)
          (i + 1, c, 0, 0) = None" for t1 t2
    by (rule while_loop_never_exits[where I = "\<lambda>s. m \<le> fst s"])
       (use le in \<open>auto simp: csymm_ll_k_def Let_def split: prod.splits\<close>)
  then show ?thesis by (simp add: csymm_ll_i_def Let_def)
qed

lemma rev_upto_last: "1 \<le> m \<Longrightarrow> rev [1..m] = m # rev [1..m - 1]"
  by (simp add: upto_rec2)

text \<open>
  The loop over \<open>i\<close> starts at \<open>i = m\<close>, so the left-side lower-triangle branch of
  \<^verbatim>\<open>csymm\<close> never returns once there is a row and a column to work on.
\<close>

lemma csymm_left_lower_never_returns:
  assumes "1 \<le> m" "1 \<le> n"
  shows "csymm_left_lower m n alpha beta betaIsZero a b c = None"
proof -
  have "[1..n] = 1 # [2..n]" using assms(2) by (simp add: upto_rec1)
  then show ?thesis
    using assms(1)
    by (simp add: csymm_left_lower_def Let_def rev_upto_last csymm_ll_i_never_returns)
qed

text \<open>
  The check of line 66 in \<^verbatim>\<open>csymm\<close> gives code 2 exactly when the side token passes
  and the triangle token is found in \<^verbatim>\<open>'ul'\<close>; the check of line 301 in \<^verbatim>\<open>ssymm\<close>
  gives code 2 exactly when the side is \<^verbatim>\<open>l\<close> or \<^verbatim>\<open>r\<close> and the triangle is
  neither \<^verbatim>\<open>u\<close> nor \<^verbatim>\<open>l\<close>.
\<close>

lemma csymm_info_2_iff:
  "(csymm_info si ul m n nrowA lda ldb ldc = 2) = (str_includes ''lr'' si \<and> str_includes ''ul'' ul)"
  by (simp add: csymm_info_def)

lemma ssymm_info_2_iff:
  "(ssymm_info si ul m n nrowA lda ldb ldc = 2) = ((si = ''l'' \<or> si = ''r'') \<and> ul \<noteq> ''u'' \<and> ul \<noteq> ''l'')"
  by (auto simp: ssymm_info_def)

text \<open>\<^verbatim>\<open>ssymm\<close> has no throw after its checks and only counting loops: it returns.\<close>

lemma ssymm_returns:
  assumes "ssymm_info (lowerChar side) (lowerChar uplo) m n
             (if lowerChar side = ''l'' then m else n) lda ldb ldc = 0"
  shows "\<exists>c'. ssymm side uplo m n alpha a lda b ldb beta c ldc = Returned c'"
  using assms by (simp add: ssymm_def Let_def)

text \<open>Lines 325-327: with alpha = 0 and beta = 1 \<^verbatim>\<open>ssymm\<close> returns \<^verbatim>\<open>c\<close> as it got it.\<close>

lemma ssymm_alpha_zero_beta_one:
  assumes "ssymm_info (lowerChar side) (lowerChar uplo) m n
             (if lowerChar side = ''l'' then m else n) lda ldb ldc = 0"
  shows "ssymm side uplo m n 0 a lda b ldb 1 c ldc = Returned c"
  using assms by (simp add: ssymm_def Let_def)

text \<open>
  A call of \<^verbatim>\<open>csymm\<close> with all three imaginary buffers, side \<^verbatim>\<open>l\<close> or \<^verbatim>\<open>r\<close> and
  triangle \<^verbatim>\<open>u\<close> or \<^verbatim>\<open>l\<close> throws with code 2 and leaves \<^verbatim>\<open>c\<close> as it was.
\<close>

lemma csymm_valid_selectors_throw:
  assumes "i_buf a \<noteq> None" "i_buf b \<noteq> None" "i_buf c \<noteq> None"
    and "lowerChar side = ''l'' \<or> lowerChar side = ''r''"
    and "lowerChar uplo = ''u'' \<or> lowerChar uplo = ''l''"
  shows "csymm side uplo m n alpha a lda b ldb beta c ldc = Some (Thrown (WrongArg ''csymm'' 2) c)"
proof -
  from assms(4) have s: "str_includes ''lr'' (lowerChar side)" by auto
  from assms(5) have t: "str_includes ''ul'' (lowerChar uplo)" by auto
  have "csymm_info (lowerChar side) (lowerChar uplo) m n nr lda ldb ldc = 2" for nr
    by (simp add: csymm_info_def s t del: str_includes.simps)
  then show ?thesis using assms(1-3) by (simp add: csymm_def Let_def)
qed

text \<open>
  A call of \<^verbatim>\<open>csymm\<close> with side \<^verbatim>\<open>l\<close> that passes the checks and the quick returns
  has a triangle token other than \<^verbatim>\<open>u\<close>, enters the lower-triangle branch and never
  returns.
\<close>

lemma csymm_left_never_returns:
  assumes "i_buf a \<noteq> None" "i_buf b \<noteq> None" "i_buf c \<noteq> None"
    and "lowerChar side = ''l''"
    and "csymm_info ''l'' (lowerChar uplo) m n m lda ldb ldc = 0"
    and "1 \<le> m" "1 \<le> n"
    and "\<not> (re alpha = 0 \<and> im alpha = 0)"
  shows "csymm side uplo m n alpha a lda b ldb beta c ldc = None"
proof -
  from assms(5) have "\<not> str_includes ''ul'' (lowerChar uplo)"
    by (auto simp: csymm_info_def split: if_splits)
  then have "lowerChar uplo \<noteq> ''u''" by auto
  with assms show ?thesis
    by (auto simp add: csymm_def Let_def csymm_left_lower_never_returns)
qed

text \<open>
  Lines 104-112 with beta = 0: the new element of \<^verbatim>\<open>c\<close> is computed from the old one.
\<close>

lemma csymm_alpha_zero_beta_zero_reads_c:
  "csymm_alpha_zero 1 1 beta True \<lparr>r_buf = cr, i_buf = Some ci, ld = l\<rparr>
   = \<lparr>r_buf = cr(1 := re beta * cr 1 - im beta * ci 1),
      i_buf = Some (ci(1 := re beta * ci 1 + im beta * cr 1)), ld = l\<rparr>"
  by (simp add: csymm_alpha_zero_def colOfEx_def set_r_def set_i_def i_at_def upto.simps Let_def)

subsection \<open>ssymm: the path for alpha = 0\<close>

text \<open>
  Lines 331-335: the loop of \<^verbatim>\<open>setCol\<close> calls leaves the leading dimension alone and
  puts the value at every offset of the rows \<open>1..m\<close> of the columns it visits.
\<close>

lemma fold_setCol_zero:
  "ld (fold (\<lambda>j c. setCol c j 1 m v) js c) = ld c \<and>
   r_buf (fold (\<lambda>j c. setCol c j 1 m v) js c) =
     (\<lambda>k. if \<exists>j\<in>set js. colOfEx c j + 1 \<le> k \<and> k \<le> colOfEx c j + m then v else r_buf c k)"
proof (induction js arbitrary: c)
  case Nil
  then show ?case by simp
next
  case (Cons j js)
  have ld: "ld (setCol c j 1 m v) = ld c" by (simp add: setCol_def Let_def)
  have co: "colOfEx (setCol c j 1 m v) = colOfEx c" by (simp add: colOfEx_def ld fun_eq_iff)
  show ?case
    by (simp add: Cons.IH ld co) (auto simp: setCol_def Let_def fill_def fun_eq_iff)
qed

text \<open>
  With alpha = 0 and beta = 0 a valid call of \<^verbatim>\<open>ssymm\<close> returns with 0 in every
  element of the active region of \<^verbatim>\<open>c\<close>. (The element type is asked for
  \<open>0 \<noteq> 1\<close>: otherwise beta = 0 is also beta = 1 and line 326 returns first.)
\<close>

lemma ssymm_alpha_zero_beta_zero:
  fixes c :: "('a::{zero,one,plus,minus,times}) Matrix"
  assumes "ssymm_info (lowerChar side) (lowerChar uplo) m n
             (if lowerChar side = ''l'' then m else n) lda ldb ldc = 0"
    and "(0::'a) \<noteq> 1"
    and "1 \<le> j" "j \<le> n" "1 \<le> i" "i \<le> m"
  shows "\<exists>c'. ssymm side uplo m n 0 a lda b ldb 0 c ldc = Returned c' \<and> ld c' = ld c
               \<and> r_buf c' (colOfEx c j + i) = 0"
proof -
  have mn: "m \<noteq> 0" "n \<noteq> 0" using assms(3-6) by auto
  have "\<exists>j'\<in>set [1..n]. colOfEx c j' + 1 \<le> colOfEx c j + i \<and> colOfEx c j + i \<le> colOfEx c j' + m"
    using assms(3-6) by (intro bexI[of _ j]) auto
  then have "r_buf (fold (\<lambda>j c. setCol c j 1 m 0) [1..n] c) (colOfEx c j + i) = 0"
    by (simp only: fold_setCol_zero if_True)
  then show ?thesis
    using assms(1,2) mn by (simp add: ssymm_def Let_def ssymm_alpha_zero_def fold_setCol_zero)
qed

text \<open>Lines 337-342: the loop that multiplies the rows of one column by beta.\<close>

lemma fold_scale_col:
  assumes "distinct is"
  shows "ld (fold (\<lambda>i c. set_r c (co + i) (r_buf c (co + i) * beta)) is c) = ld c \<and>
   r_buf (fold (\<lambda>i c. set_r c (co + i) (r_buf c (co + i) * beta)) is c) =
     (\<lambda>k. if \<exists>i\<in>set is. k = co + i then r_buf c k * beta else r_buf c k)"
  using assms
proof (induction "is" arbitrary: c)
  case Nil
  then show ?case by simp
next
  case (Cons i "is")
  then show ?case by (auto simp: set_r_def fun_eq_iff)
qed

text \<open>
  Two elements of the active region in different columns have different offsets once
  the leading dimension is at least the number of rows.
\<close>

lemma col_disjoint:
  fixes l :: int
  assumes "m \<le> l" "1 \<le> i" "i \<le> m" "1 \<le> i'" "i' \<le> m"
    and eq: "(j - 1) * l + i = (j' - 1) * l + i'"
  shows "j = j'"
proof (rule ccontr)
  assume ne: "j \<noteq> j'"
  from eq have e: "(j - j') * l = i' - i" by (simp add: algebra_simps)
  have l: "0 < l" using assms by linarith
  have "\<bar>(j - j') * l\<bar> = \<bar>j - j'\<bar> * l" using l by (simp add: abs_mult)
  moreover have "1 \<le> \<bar>j - j'\<bar>" using ne by linarith
  ultimately have "l \<le> \<bar>(j - j') * l\<bar>" using l by (simp add: mult_le_cancel_right2)
  moreover have "\<bar>i' - i\<bar> < l" using assms by linarith
  ultimately show False using e by linarith
qed

lemma colOfEx_cong: "ld M = ld N \<Longrightarrow> colOfEx M = colOfEx N"
  by (simp add: colOfEx_def fun_eq_iff)

lemma fold_scale_cols:
  fixes c :: "('a::{zero,one,plus,minus,times}) Matrix"
  assumes "distinct js" "m \<le> ld c"
  shows "ld (fold (\<lambda>j c. fold (\<lambda>i c'. set_r c' (colOfEx c j + i) (r_buf c' (colOfEx c j + i) * beta))
                          [1..m] c) js c) = ld c \<and>
   r_buf (fold (\<lambda>j c. fold (\<lambda>i c'. set_r c' (colOfEx c j + i) (r_buf c' (colOfEx c j + i) * beta))
                          [1..m] c) js c) =
     (\<lambda>k. if \<exists>j\<in>set js. \<exists>i\<in>{1..m}. k = colOfEx c j + i then r_buf c k * beta else r_buf c k)"
  using assms
proof (induction js arbitrary: c)
  case Nil
  then show ?case by simp
next
  case (Cons j js)
  define F where "F = (\<lambda>j (c :: 'a Matrix).
      fold (\<lambda>i c'. set_r c' (colOfEx c j + i) (r_buf c' (colOfEx c j + i) * beta)) [1..m] c)"
  have c1: "ld (F j c) = ld c"
    "r_buf (F j c) = (\<lambda>k. if \<exists>i\<in>set [1..m]. k = colOfEx c j + i then r_buf c k * beta else r_buf c k)"
    unfolding F_def using fold_scale_col[of "[1..m]" "colOfEx c j" beta c] by simp_all
  have co: "colOfEx (F j c) = colOfEx c" by (rule colOfEx_cong) (rule c1(1))
  have IH: "ld (fold F js (F j c)) = ld (F j c) \<and>
   r_buf (fold F js (F j c)) =
     (\<lambda>k. if \<exists>j'\<in>set js. \<exists>i\<in>{1..m}. k = colOfEx (F j c) j' + i then r_buf (F j c) k * beta
          else r_buf (F j c) k)"
    unfolding F_def by (rule Cons.IH) (use Cons.prems c1[unfolded F_def] in simp_all)
  have disj: "colOfEx c j' + i \<noteq> colOfEx c j + i'"
    if "j' \<in> set js" "i \<in> {1..m}" "i' \<in> {1..m}" for j' i i'
    using that Cons.prems col_disjoint[of m "ld c" i i' j' j] by (auto simp: colOfEx_def)
  have "ld (fold F (j # js) c) = ld c \<and>
        r_buf (fold F (j # js) c) =
          (\<lambda>k. if \<exists>j'\<in>set (j # js). \<exists>i\<in>{1..m}. k = colOfEx c j' + i then r_buf c k * beta
               else r_buf c k)"
    using disj by (simp add: IH co c1 fun_eq_iff Ball_def) (metis atLeastAtMost_iff)
  then show ?case unfolding F_def .
qed

text \<open>
  With alpha = 0 and beta outside {0, 1} a valid call of \<^verbatim>\<open>ssymm\<close> on a matrix
  \<^verbatim>\<open>c\<close> whose leading dimension is at least \<open>m\<close> returns with every element of
  the active region multiplied by beta.
\<close>

lemma ssymm_alpha_zero_scales:
  fixes c :: "('a::{zero,one,plus,minus,times}) Matrix"
  assumes "ssymm_info (lowerChar side) (lowerChar uplo) m n
             (if lowerChar side = ''l'' then m else n) lda ldb ldc = 0"
    and "beta \<noteq> 0" "beta \<noteq> 1" "m \<le> ld c"
    and "1 \<le> j" "j \<le> n" "1 \<le> i" "i \<le> m"
  shows "\<exists>c'. ssymm side uplo m n 0 a lda b ldb beta c ldc = Returned c' \<and> ld c' = ld c
               \<and> r_buf c' (colOfEx c j + i) = r_buf c (colOfEx c j + i) * beta"
proof -
  have mn: "m \<noteq> 0" "n \<noteq> 0" using assms(5-8) by auto
  have "\<exists>j'\<in>set [1..n]. \<exists>i'\<in>{1..m}. colOfEx c j + i = colOfEx c j' + i'"
    using assms(5-8) by (intro bexI[of _ j] bexI[of _ i]) auto
  then show ?thesis
    using assms(1-4) mn
    by (simp add: ssymm_def Let_def ssymm_alpha_zero_def fold_scale_cols)
qed

subsection \<open>ssymm, side right: upper storage and its mirror\<close>

text \<open>
  \<^verbatim>\<open>a\<close> holds the upper triangle and \<^verbatim>\<open>a'\<close> holds the same logical matrix in its
  lower triangle: the element of \<^verbatim>\<open>a'\<close> in row \<open>l\<close> of column \<open>k\<close> is the element
  of \<^verbatim>\<open>a\<close> in row \<open>k\<close> of column \<open>l\<close>, for \<open>k < l\<close>, and the diagonals are the
  same. Then the right-side branch does the same operations in the same order on both:
  the results are equal whatever the arithmetic is.
\<close>

lemma ssymm_right_j_mirror:
  fixes a :: "('a::{zero,one,plus,minus,times}) Matrix"
  assumes ld: "ld a' = ld a"
    and diag: "r_buf a' (colOfEx a j + j) = r_buf a (colOfEx a j + j)"
    and mirror: "\<And>k l. 1 \<le> k \<Longrightarrow> k < l \<Longrightarrow> l \<le> n \<Longrightarrow>
                   r_buf a' (colOfEx a k + l) = r_buf a (colOfEx a l + k)"
    and j: "1 \<le> j" "j \<le> n"
  shows "ssymm_right_j ''u'' m n alpha beta a b j c = ssymm_right_j ''l'' m n alpha beta a' b j c"
proof -
  have co: "colOfEx a' = colOfEx a" by (rule colOfEx_cong) (rule ld)
  have k1: "fold (\<lambda>k c. ssymm_right_add m b (colOfEx b k) (colOfEx c0 j)
                     (alpha * r_buf a (colOfEx a j + k)) c) [1..j - 1] c1
          = fold (\<lambda>k c. ssymm_right_add m b (colOfEx b k) (colOfEx c0 j)
                     (alpha * r_buf a' (colOfEx a k + j)) c) [1..j - 1] c1" for c0 c1
    by (rule fold_cong) (use j mirror in auto)
  have k2: "fold (\<lambda>k c. ssymm_right_add m b (colOfEx b k) (colOfEx c0 j)
                     (alpha * r_buf a (colOfEx a k + j)) c) [j + 1..n] c1
          = fold (\<lambda>k c. ssymm_right_add m b (colOfEx b k) (colOfEx c0 j)
                     (alpha * r_buf a' (colOfEx a j + k)) c) [j + 1..n] c1" for c0 c1
    by (rule fold_cong) (use j mirror in auto)
  show ?thesis
    by (simp add: ssymm_right_j_def Let_def co diag k1 k2)
qed

lemma ssymm_right_upper_lower_mirror:
  fixes a :: "('a::{zero,one,plus,minus,times}) Matrix"
  assumes ld: "ld a' = ld a"
    and diag: "\<And>j. 1 \<le> j \<Longrightarrow> j \<le> n \<Longrightarrow> r_buf a' (colOfEx a j + j) = r_buf a (colOfEx a j + j)"
    and mirror: "\<And>k l. 1 \<le> k \<Longrightarrow> k < l \<Longrightarrow> l \<le> n \<Longrightarrow>
                   r_buf a' (colOfEx a k + l) = r_buf a (colOfEx a l + k)"
  shows "ssymm_right ''u'' m n alpha beta a b c = ssymm_right ''l'' m n alpha beta a' b c"
  unfolding ssymm_right_def
proof (rule fold_cong)
  fix j assume "j \<in> set [1..n]"
  then have j: "1 \<le> j" "j \<le> n" by auto
  show "ssymm_right_j ''u'' m n alpha beta a b j = ssymm_right_j ''l'' m n alpha beta a' b j"
    by (rule ext) (rule ssymm_right_j_mirror[OF ld diag[OF j] mirror j])
qed simp_all

lemma ssymm_right_call_upper_lower_mirror:
  fixes a :: "('a::{zero,one,plus,minus,times}) Matrix"
  assumes ld: "ld a' = ld a"
    and diag: "\<And>j. 1 \<le> j \<Longrightarrow> j \<le> n \<Longrightarrow> r_buf a' (colOfEx a j + j) = r_buf a (colOfEx a j + j)"
    and mirror: "\<And>k l. 1 \<le> k \<Longrightarrow> k < l \<Longrightarrow> l \<le> n \<Longrightarrow>
                   r_buf a' (colOfEx a k + l) = r_buf a (colOfEx a l + k)"
  shows "ssymm ''r'' ''u'' m n alpha a lda b ldb beta c ldc
       = ssymm ''r'' ''l'' m n alpha a' lda b ldb beta c ldc"
  using ssymm_right_upper_lower_mirror[OF ld diag mirror]
  by (simp add: ssymm_def Let_def lowerChar_tokens ssymm_info_def)

subsection \<open>ssymm with beta = 0: what the result owes to the old c\<close>

lemma agree_on_ld: "agree_on S c1 c2 \<Longrightarrow> ld c1 = ld c2"
  by (simp add: agree_on_def)

lemma agree_on_colOfEx: "agree_on S c1 c2 \<Longrightarrow> colOfEx c1 j = colOfEx c2 j"
  by (simp add: agree_on_def colOfEx_def)

lemma agree_on_at: "agree_on S c1 c2 \<Longrightarrow> k \<in> S \<Longrightarrow> r_buf c1 k = r_buf c2 k"
  by (simp add: agree_on_def)

lemma agree_on_set_r: "agree_on S c1 c2 \<Longrightarrow> agree_on (insert k S) (set_r c1 k v) (set_r c2 k v)"
  by (simp add: agree_on_def set_r_def)

lemma agree_on_set_r_in:
  "agree_on S c1 c2 \<Longrightarrow> k \<in> S \<Longrightarrow> agree_on S (set_r c1 k (g (r_buf c1 k))) (set_r c2 k (g (r_buf c2 k)))"
  by (simp add: agree_on_def set_r_def)

text \<open>The seeding loop of the right side with beta = 0 writes a column without reading it.\<close>

lemma agree_on_fold_write:
  "agree_on S c1 c2 \<Longrightarrow>
   agree_on (S \<union> (\<lambda>i. co + i) ` set is)
     (fold (\<lambda>i c. set_r c (co + i) (v i)) is c1) (fold (\<lambda>i c. set_r c (co + i) (v i)) is c2)"
proof (induction "is" arbitrary: S c1 c2)
  case Nil
  then show ?case by simp
next
  case (Cons i "is")
  from Cons.IH[OF agree_on_set_r[OF Cons.prems, of "co + i" "v i"]]
  show ?case by (simp add: Un_commute insert_commute)
qed

text \<open>
  The loops over \<open>k\<close> of the right side add to a column that is already written:
  they keep the agreement on a set that holds the column.
\<close>

lemma agree_on_right_add:
  assumes "agree_on S c1 c2" "\<And>i. i \<in> set [1..m] \<Longrightarrow> co + i \<in> S"
  shows "agree_on S (ssymm_right_add m b coorBK co t c1) (ssymm_right_add m b coorBK co t c2)"
proof -
  have "agree_on S c1 c2 \<Longrightarrow> (\<And>i. i \<in> set is \<Longrightarrow> co + i \<in> S) \<Longrightarrow>
        agree_on S
          (fold (\<lambda>i c. set_r c (co + i) (r_buf c (co + i) + t * r_buf b (coorBK + i))) is c1)
          (fold (\<lambda>i c. set_r c (co + i) (r_buf c (co + i) + t * r_buf b (coorBK + i))) is c2)"
    for "is" c1 c2
  proof (induction "is" arbitrary: c1 c2)
    case Nil
    then show ?case by simp
  next
    case (Cons i "is")
    have "agree_on S (set_r c1 (co + i) (r_buf c1 (co + i) + t * r_buf b (coorBK + i)))
                     (set_r c2 (co + i) (r_buf c2 (co + i) + t * r_buf b (coorBK + i)))"
      using agree_on_set_r_in[OF Cons.prems(1), of "co + i" "\<lambda>x. x + t * r_buf b (coorBK + i)"]
        Cons.prems(2) by simp
    from Cons.IH[OF this] Cons.prems(2) show ?case by simp
  qed
  from this[OF assms(1), of "[1..m]"] assms(2) show ?thesis
    by (simp add: ssymm_right_add_def)
qed

lemma agree_on_fold_right_add:
  assumes "agree_on S c1 c2" "\<And>i. i \<in> set [1..m] \<Longrightarrow> co + i \<in> S"
  shows "agree_on S (fold (\<lambda>k c. ssymm_right_add m b (cb k) co (t k) c) ks c1)
                    (fold (\<lambda>k c. ssymm_right_add m b (cb k) co (t k) c) ks c2)"
  using assms(1)
proof (induction ks arbitrary: c1 c2)
  case Nil
  then show ?case by simp
next
  case (Cons k ks)
  from Cons.IH[OF agree_on_right_add[OF Cons.prems assms(2)]] show ?case by simp
qed

lemma agree_on_right_j:
  fixes c1 :: "('a::{zero,one,plus,minus,times}) Matrix"
  assumes "agree_on S c1 c2"
  shows "agree_on (S \<union> (\<lambda>i. colOfEx c1 j + i) ` {1..m})
           (ssymm_right_j ul m n alpha 0 a b j c1) (ssymm_right_j ul m n alpha 0 a b j c2)"
proof -
  let ?co = "colOfEx c1 j"
  let ?S = "S \<union> (\<lambda>i. ?co + i) ` {1..m}"
  have co: "colOfEx c2 j = ?co" using agree_on_colOfEx[OF assms] by simp
  have seed: "agree_on ?S
     (fold (\<lambda>i c. set_r c (?co + i) (v i)) [1..m] c1) (fold (\<lambda>i c. set_r c (?co + i) (v i)) [1..m] c2)" for v
    using agree_on_fold_write[OF assms, of ?co "[1..m]" v] by simp
  have col: "\<And>i. i \<in> set [1..m] \<Longrightarrow> ?co + i \<in> ?S" by auto
  show ?thesis
    unfolding ssymm_right_j_def ssymm_right_seed_def Let_def co
    by (simp only: simp_thms if_True) (intro agree_on_fold_right_add seed col)
qed

lemma ld_fold: "(\<And>x c. ld (f x c) = ld c) \<Longrightarrow> ld (fold f xs c) = ld c"
  by (induction xs arbitrary: c) simp_all

lemma ld_set_r: "ld (set_r c k v) = ld c"
  by (simp add: set_r_def)

lemma ld_ssymm_right_add: "ld (ssymm_right_add m b coorBK co t c) = ld c"
  by (simp add: ssymm_right_add_def ld_fold ld_set_r)

lemma ld_ssymm_right_j: "ld (ssymm_right_j ul m n alpha beta a b j c) = ld c"
  by (simp add: ssymm_right_j_def ssymm_right_seed_def Let_def ld_fold ld_set_r ld_ssymm_right_add)

lemma agree_on_right:
  fixes c1 :: "('a::{zero,one,plus,minus,times}) Matrix"
  assumes "agree_on S c1 c2"
  shows "agree_on (S \<union> (\<Union>j\<in>set js. (\<lambda>i. colOfEx c1 j + i) ` {1..m}))
           (fold (ssymm_right_j ul m n alpha 0 a b) js c1) (fold (ssymm_right_j ul m n alpha 0 a b) js c2)"
  using assms
proof (induction js arbitrary: S c1 c2)
  case Nil
  then show ?case by simp
next
  case (Cons j js)
  let ?d1 = "ssymm_right_j ul m n alpha 0 a b j c1"
  have step: "agree_on (S \<union> (\<lambda>i. colOfEx c1 j + i) ` {1..m}) ?d1 (ssymm_right_j ul m n alpha 0 a b j c2)"
    by (rule agree_on_right_j[OF Cons.prems])
  have co: "colOfEx ?d1 = colOfEx c1" by (rule colOfEx_cong) (rule ld_ssymm_right_j)
  from Cons.IH[OF step] show ?case by (simp add: co Un_assoc)
qed

text \<open>
  The inner loop of the left side adds to rows of the column that are already written,
  and its sum \<^verbatim>\<open>temp2\<close> does not read \<^verbatim>\<open>c\<close>.
\<close>

lemma agree_on_lu_k:
  fixes c1 :: "('a::{zero,one,plus,minus,times}) Matrix"
  assumes "agree_on S c1 c2" "\<And>k. k \<in> set ks \<Longrightarrow> co + k \<in> S"
  shows "agree_on S (fst (fold (ssymm_lu_k a b coorAI coorBJ co temp1) ks (c1, t)))
                    (fst (fold (ssymm_lu_k a b coorAI coorBJ co temp1) ks (c2, t)))
       \<and> snd (fold (ssymm_lu_k a b coorAI coorBJ co temp1) ks (c1, t))
         = snd (fold (ssymm_lu_k a b coorAI coorBJ co temp1) ks (c2, t))"
  using assms
proof (induction ks arbitrary: c1 c2 t)
  case Nil
  then show ?case by simp
next
  case (Cons k ks)
  have "agree_on S (set_r c1 (co + k) (r_buf c1 (co + k) + temp1 * r_buf a (coorAI + k)))
                   (set_r c2 (co + k) (r_buf c2 (co + k) + temp1 * r_buf a (coorAI + k)))"
    using agree_on_set_r_in[OF Cons.prems(1), of "co + k" "\<lambda>x. x + temp1 * r_buf a (coorAI + k)"]
      Cons.prems(2) by simp
  from Cons.IH[OF this] Cons.prems(2) show ?case by (simp add: ssymm_lu_k_def)
qed

lemma ssymm_ll_k_eq: "ssymm_ll_k = ssymm_lu_k"
  by (simp add: fun_eq_iff ssymm_ll_k_def ssymm_lu_k_def)

lemma ld_fold_lu_k: "ld (fst (fold (ssymm_lu_k a b coorAI coorBJ co temp1) ks (c, t))) = ld c"
  by (induction ks arbitrary: c t) (simp_all add: ssymm_lu_k_def ld_set_r)

lemma ld_ssymm_lu_i: "ld (ssymm_lu_i alpha beta a b coorBJ co i c) = ld c"
  by (simp add: ssymm_lu_i_def Let_def ld_set_r ld_fold_lu_k)

lemma ld_ssymm_ll_i: "ld (ssymm_ll_i m alpha beta a b coorBJ co i c) = ld c"
  by (simp add: ssymm_ll_i_def ssymm_ll_k_eq Let_def ld_set_r ld_fold_lu_k)

lemma agree_on_lu_i:
  fixes c1 :: "('a::{zero,one,plus,minus,times}) Matrix"
  assumes "agree_on S c1 c2" "\<And>k. k \<in> set [1..i - 1] \<Longrightarrow> co + k \<in> S"
  shows "agree_on (insert (co + i) S) (ssymm_lu_i alpha 0 a b coorBJ co i c1)
                                      (ssymm_lu_i alpha 0 a b coorBJ co i c2)"
proof -
  let ?f = "fold (ssymm_lu_k a b (colOfEx a i) coorBJ co (alpha * r_buf b (coorBJ + i))) [1..i - 1]"
  have "agree_on S (fst (?f (c1, 0))) (fst (?f (c2, 0))) \<and> snd (?f (c1, 0)) = snd (?f (c2, 0))"
    by (rule agree_on_lu_k) (use assms in auto)
  then show ?thesis
    by (simp add: ssymm_lu_i_def Let_def agree_on_set_r)
qed

lemma agree_on_ll_i:
  fixes c1 :: "('a::{zero,one,plus,minus,times}) Matrix"
  assumes "agree_on S c1 c2" "\<And>k. k \<in> set [i + 1..m] \<Longrightarrow> co + k \<in> S"
  shows "agree_on (insert (co + i) S) (ssymm_ll_i m alpha 0 a b coorBJ co i c1)
                                      (ssymm_ll_i m alpha 0 a b coorBJ co i c2)"
proof -
  let ?f = "fold (ssymm_lu_k a b (colOfEx a i) coorBJ co (alpha * r_buf b (coorBJ + i))) [i + 1..m]"
  have "agree_on S (fst (?f (c1, 0))) (fst (?f (c2, 0))) \<and> snd (?f (c1, 0)) = snd (?f (c2, 0))"
    by (rule agree_on_lu_k) (use assms in auto)
  then show ?thesis
    by (simp add: ssymm_ll_i_def ssymm_ll_k_eq Let_def agree_on_set_r)
qed

text \<open>The ascending loop over the rows of a column: every row is written before it is read.\<close>

lemma agree_on_lu_col_nat:
  fixes c1 :: "('a::{zero,one,plus,minus,times}) Matrix"
  assumes "agree_on S c1 c2"
  shows "agree_on (S \<union> (\<lambda>i. co + i) ` {1..int p})
           (fold (ssymm_lu_i alpha 0 a b coorBJ co) [1..int p] c1)
           (fold (ssymm_lu_i alpha 0 a b coorBJ co) [1..int p] c2)"
proof (induction p)
  case 0
  then show ?case using assms by simp
next
  case (Suc p)
  have l: "[1..int (Suc p)] = [1..int p] @ [int p + 1]"
    using upto_rec2[of 1 "int p + 1"] by (simp add: add.commute)
  have s: "{1..int (Suc p)} = insert (int p + 1) {1..int p}" by auto
  have "agree_on (insert (co + (int p + 1)) (S \<union> (\<lambda>i. co + i) ` {1..int p}))
          (ssymm_lu_i alpha 0 a b coorBJ co (int p + 1) (fold (ssymm_lu_i alpha 0 a b coorBJ co) [1..int p] c1))
          (ssymm_lu_i alpha 0 a b coorBJ co (int p + 1) (fold (ssymm_lu_i alpha 0 a b coorBJ co) [1..int p] c2))"
    by (rule agree_on_lu_i[OF Suc.IH]) auto
  then show ?case by (simp only: l s fold_append fold_simps comp_apply image_insert Un_insert_right)
qed

lemma agree_on_lu_col:
  fixes c1 :: "('a::{zero,one,plus,minus,times}) Matrix"
  assumes "agree_on S c1 c2"
  shows "agree_on (S \<union> (\<lambda>i. co + i) ` {1..m})
           (fold (ssymm_lu_i alpha 0 a b coorBJ co) [1..m] c1)
           (fold (ssymm_lu_i alpha 0 a b coorBJ co) [1..m] c2)"
proof (cases "0 \<le> m")
  case True
  then show ?thesis using agree_on_lu_col_nat[OF assms, of co "nat m"] by simp
next
  case False
  then show ?thesis using assms by simp
qed

text \<open>The descending loop over the rows of a column.\<close>

lemma agree_on_ll_col_nat:
  fixes c1 :: "('a::{zero,one,plus,minus,times}) Matrix"
  assumes "agree_on S c1 c2"
  shows "agree_on (S \<union> (\<lambda>i. co + i) ` {m - int p + 1..m})
           (fold (ssymm_ll_i m alpha 0 a b coorBJ co) (rev [m - int p + 1..m]) c1)
           (fold (ssymm_ll_i m alpha 0 a b coorBJ co) (rev [m - int p + 1..m]) c2)"
proof (induction p)
  case 0
  then show ?case using assms by simp
next
  case (Suc p)
  have l: "rev [m - int (Suc p) + 1..m] = rev [m - int p + 1..m] @ [m - int p]"
    using upto_rec1[of "m - int p" m] by simp
  have s: "{m - int (Suc p) + 1..m} = insert (m - int p) {m - int p + 1..m}" by auto
  have "agree_on (insert (co + (m - int p)) (S \<union> (\<lambda>i. co + i) ` {m - int p + 1..m}))
          (ssymm_ll_i m alpha 0 a b coorBJ co (m - int p)
             (fold (ssymm_ll_i m alpha 0 a b coorBJ co) (rev [m - int p + 1..m]) c1))
          (ssymm_ll_i m alpha 0 a b coorBJ co (m - int p)
             (fold (ssymm_ll_i m alpha 0 a b coorBJ co) (rev [m - int p + 1..m]) c2))"
    by (rule agree_on_ll_i[OF Suc.IH]) auto
  then show ?case by (simp only: l s fold_append fold_simps comp_apply image_insert Un_insert_right)
qed

lemma agree_on_ll_col:
  fixes c1 :: "('a::{zero,one,plus,minus,times}) Matrix"
  assumes "agree_on S c1 c2"
  shows "agree_on (S \<union> (\<lambda>i. co + i) ` {1..m})
           (fold (ssymm_ll_i m alpha 0 a b coorBJ co) (rev [1..m]) c1)
           (fold (ssymm_ll_i m alpha 0 a b coorBJ co) (rev [1..m]) c2)"
proof (cases "0 \<le> m")
  case True
  then show ?thesis using agree_on_ll_col_nat[OF assms, of co m "nat m"] by simp
next
  case False
  then show ?thesis using assms by simp
qed

lemma agree_on_left_upper:
  fixes c1 :: "('a::{zero,one,plus,minus,times}) Matrix"
  assumes "agree_on S c1 c2"
  shows "agree_on (S \<union> (\<Union>j\<in>set js. (\<lambda>i. colOfEx c1 j + i) ` {1..m}))
           (fold (\<lambda>j c. fold (ssymm_lu_i alpha 0 a b (colOfEx b j) (colOfEx c j)) [1..m] c) js c1)
           (fold (\<lambda>j c. fold (ssymm_lu_i alpha 0 a b (colOfEx b j) (colOfEx c j)) [1..m] c) js c2)"
  using assms
proof (induction js arbitrary: S c1 c2)
  case Nil
  then show ?case by simp
next
  case (Cons j js)
  let ?d1 = "fold (ssymm_lu_i alpha 0 a b (colOfEx b j) (colOfEx c1 j)) [1..m] c1"
  let ?d2 = "fold (ssymm_lu_i alpha 0 a b (colOfEx b j) (colOfEx c1 j)) [1..m] c2"
  have co2: "colOfEx c2 j = colOfEx c1 j" using agree_on_colOfEx[OF Cons.prems] by simp
  have step: "agree_on (S \<union> (\<lambda>i. colOfEx c1 j + i) ` {1..m}) ?d1 ?d2"
    by (rule agree_on_lu_col[OF Cons.prems])
  have co: "colOfEx ?d1 = colOfEx c1"
    by (rule colOfEx_cong) (simp add: ld_fold ld_ssymm_lu_i)
  from Cons.IH[OF step] show ?case by (simp add: co co2 Un_assoc)
qed

lemma agree_on_left_lower:
  fixes c1 :: "('a::{zero,one,plus,minus,times}) Matrix"
  assumes "agree_on S c1 c2"
  shows "agree_on (S \<union> (\<Union>j\<in>set js. (\<lambda>i. colOfEx b j + i) ` {1..m}))
           (fold (\<lambda>j c. fold (ssymm_ll_i m alpha 0 a b (colOfEx b j) (colOfEx b j)) (rev [1..m]) c) js c1)
           (fold (\<lambda>j c. fold (ssymm_ll_i m alpha 0 a b (colOfEx b j) (colOfEx b j)) (rev [1..m]) c) js c2)"
  using assms
proof (induction js arbitrary: S c1 c2)
  case Nil
  then show ?case by simp
next
  case (Cons j js)
  have step: "agree_on (S \<union> (\<lambda>i. colOfEx b j + i) ` {1..m})
     (fold (ssymm_ll_i m alpha 0 a b (colOfEx b j) (colOfEx b j)) (rev [1..m]) c1)
     (fold (ssymm_ll_i m alpha 0 a b (colOfEx b j) (colOfEx b j)) (rev [1..m]) c2)"
    by (rule agree_on_ll_col[OF Cons.prems])
  from Cons.IH[OF step] show ?case by (simp add: Un_assoc)
qed

text \<open>
  With beta = 0, two calls of \<^verbatim>\<open>ssymm\<close> that differ only in the buffer of \<^verbatim>\<open>c\<close>
  end with the same active region of \<^verbatim>\<open>c\<close>; in the left-side lower-triangle branch
  this needs \<^verbatim>\<open>b\<close> and \<^verbatim>\<open>c\<close> to have the same leading dimension.
\<close>

lemma ssymm_beta_zero_forgets_c:
  fixes c1 :: "('a::{zero,one,plus,minus,times}) Matrix"
  assumes ld: "ld c1 = ld c2"
    and neq: "(0::'a) \<noteq> 1"
    and info: "ssymm_info (lowerChar side) (lowerChar uplo) m n
             (if lowerChar side = ''l'' then m else n) lda ldb ldc = 0"
    and lower: "lowerChar side = ''l'' \<and> lowerChar uplo \<noteq> ''u'' \<and> alpha \<noteq> 0 \<Longrightarrow> ld b = ld c1"
    and ji: "1 \<le> j" "j \<le> n" "1 \<le> i" "i \<le> m"
  shows "\<exists>c1' c2'. ssymm side uplo m n alpha a lda b ldb 0 c1 ldc = Returned c1'
                 \<and> ssymm side uplo m n alpha a lda b ldb 0 c2 ldc = Returned c2'
                 \<and> r_buf c1' (colOfEx c1 j + i) = r_buf c2' (colOfEx c1 j + i)"
proof -
  have mn: "m \<noteq> 0" "n \<noteq> 0" using ji by auto
  have start: "agree_on {} c1 c2" using ld by (simp add: agree_on_def)
  have co: "colOfEx c2 = colOfEx c1" by (rule colOfEx_cong) (simp add: ld)
  have mem: "colOfEx c1 j + i \<in> (\<Union>j\<in>set [1..n]. (\<lambda>i. colOfEx c1 j + i) ` {1..m})"
    using ji by (auto intro!: bexI[of _ j])
  have zero: "\<exists>j'\<in>set [1..n]. colOfEx c1 j' + 1 \<le> colOfEx c1 j + i \<and> colOfEx c1 j + i \<le> colOfEx c1 j' + m"
    using ji by (auto intro!: bexI[of _ j])
  consider (z) "alpha = 0"
    | (lu) "alpha \<noteq> 0" "lowerChar side = ''l''" "lowerChar uplo = ''u''"
    | (ll) "alpha \<noteq> 0" "lowerChar side = ''l''" "lowerChar uplo \<noteq> ''u''"
    | (r) "alpha \<noteq> 0" "lowerChar side \<noteq> ''l''"
    by blast
  then show ?thesis
  proof cases
    case z
    have "r_buf (fold (\<lambda>j c. setCol c j 1 m 0) [1..n] c1) (colOfEx c1 j + i) = 0"
      "r_buf (fold (\<lambda>j c. setCol c j 1 m 0) [1..n] c2) (colOfEx c1 j + i) = 0"
      using zero by (simp_all only: fold_setCol_zero co if_True)
    then show ?thesis
      using z info mn neq by (simp add: ssymm_def Let_def ssymm_alpha_zero_def)
  next
    case lu
    from agree_on_at[OF agree_on_left_upper[OF start, where js = "[1..n]" and m = m and alpha = alpha and a = a and b = b] ] mem
    have "r_buf (ssymm_left_upper m n alpha 0 a b c1) (colOfEx c1 j + i)
        = r_buf (ssymm_left_upper m n alpha 0 a b c2) (colOfEx c1 j + i)"
      by (simp add: ssymm_left_upper_def Let_def)
    then show ?thesis
      using lu info mn by (simp add: ssymm_def Let_def)
  next
    case ll
    with lower have "colOfEx b = colOfEx c1" by (intro colOfEx_cong) simp
    with mem have "colOfEx c1 j + i \<in> (\<Union>j\<in>set [1..n]. (\<lambda>i. colOfEx b j + i) ` {1..m})" by simp
    with agree_on_at[OF agree_on_left_lower[OF start, where js = "[1..n]" and m = m and alpha = alpha and a = a and b = b] ]
    have "r_buf (ssymm_left_lower m n alpha 0 a b c1) (colOfEx c1 j + i)
        = r_buf (ssymm_left_lower m n alpha 0 a b c2) (colOfEx c1 j + i)"
      by (simp add: ssymm_left_lower_def Let_def)
    then show ?thesis
      using ll info mn by (simp add: ssymm_def Let_def)
  next
    case r
    from agree_on_at[OF agree_on_right[OF start, where js = "[1..n]" and m = m and n = n and ul = "lowerChar uplo"
        and alpha = alpha and a = a and b = b] ] mem
    have "r_buf (ssymm_right (lowerChar uplo) m n alpha 0 a b c1) (colOfEx c1 j + i)
        = r_buf (ssymm_right (lowerChar uplo) m n alpha 0 a b c2) (colOfEx c1 j + i)"
      by (simp add: ssymm_right_def)
    then show ?thesis
      using r info mn by (simp add: ssymm_def Let_def)
  qed
qed

subsection \<open>ssymm, side right: the seed of a column\<close>

lemma fold_update_col:
  assumes "distinct is"
  shows "r_buf (fold (\<lambda>i c. set_r c (co + i) (g i (r_buf c (co + i)))) is c) =
     (\<lambda>k. if \<exists>i\<in>set is. k = co + i then g (k - co) (r_buf c k) else r_buf c k)"
  using assms
proof (induction "is" arbitrary: c)
  case Nil
  then show ?case by simp
next
  case (Cons i "is")
  then show ?case by (auto simp: set_r_def fun_eq_iff)
qed

text \<open>
  Lines 403-414: after the seeding loop, row \<open>i\<close> of the column holds
  \<open>temp1 * B(i,j)\<close>, plus \<open>beta * C(i,j)\<close> when beta is not zero.
\<close>

lemma ssymm_right_seed_value:
  fixes c :: "('a::{zero,one,plus,minus,times}) Matrix"
  assumes "1 \<le> i" "i \<le> m"
  shows "r_buf (ssymm_right_seed m beta b coorBJ coorCJ temp1 c) (coorCJ + i) =
           (if beta = 0 then temp1 * r_buf b (coorBJ + i)
            else beta * r_buf c (coorCJ + i) + temp1 * r_buf b (coorBJ + i))"
proof -
  have d: "distinct [1..m]" by simp
  have ex: "\<exists>i'\<in>set [1..m]. coorCJ + i = coorCJ + i'" using assms by auto
  show ?thesis
    unfolding ssymm_right_seed_def
    using fold_update_col[OF d, of coorCJ "\<lambda>i x. temp1 * r_buf b (coorBJ + i)" c]
      fold_update_col[OF d, of coorCJ "\<lambda>i x. beta * x + temp1 * r_buf b (coorBJ + i)" c] ex
    by simp
qed

text \<open>
  Lines 398-432 of \<^verbatim>\<open>ssymm\<close>: a pass over column \<open>j\<close> seeds the column with
  \<open>temp1 = alpha * A(j,j)\<close>, read at row \<open>j\<close> of column \<open>j\<close> of \<^verbatim>\<open>a\<close>, and then
  runs the two loops over \<open>k\<close> on the seeded column.
\<close>

lemma ssymm_right_j_seeds_first:
  "ssymm_right_j ul m n alpha beta a b j c =
     fold (\<lambda>k. ssymm_right_add m b (colOfEx b k) (colOfEx c j)
                 (alpha * (if ul = ''u'' then r_buf a (colOfEx a k + j) else r_buf a (colOfEx a j + k))))
       [j + 1..n]
       (fold (\<lambda>k. ssymm_right_add m b (colOfEx b k) (colOfEx c j)
                 (alpha * (if ul = ''u'' then r_buf a (colOfEx a j + k) else r_buf a (colOfEx a k + j))))
          [1..j - 1]
          (ssymm_right_seed m beta b (colOfEx b j) (colOfEx c j) (alpha * r_buf a (colOfEx a j + j)) c))"
  by (simp add: ssymm_right_j_def Let_def)

section \<open>The claims\<close>

text \<open>
  C1. Claim: every call that passes validation, of \<^verbatim>\<open>csymm\<close> and of \<^verbatim>\<open>ssymm\<close>,
  runs to completion and returns, and the left-side lower-triangle branch terminates.
  The code of \<^verbatim>\<open>csymm\<close> does otherwise: a 1 by 1 call with side \<^verbatim>\<open>l\<close> and
  triangle \<^verbatim>\<open>l\<close> throws with code 2 (line 66), and the same call with a token that
  line 66 lets through enters the lower-triangle branch and never returns (line 168).
  \<^verbatim>\<open>ssymm\<close> does return (\<open>ssymm_returns\<close>).
\<close>

theorem csymm_left_lower_call_never_returns:
  "csymm ''l'' ''x'' 1 1 \<lparr>re = 1, im = 0\<rparr>
      \<lparr>r_buf = ar, i_buf = Some ai, ld = 1\<rparr> 1
      \<lparr>r_buf = br, i_buf = Some bi, ld = 1\<rparr> 1
      \<lparr>re = 0, im = 0\<rparr> \<lparr>r_buf = cr, i_buf = Some ci, ld = 1\<rparr> 1
     = (None :: real outcome option)
   \<and> csymm ''l'' ''l'' 1 1 \<lparr>re = 1, im = 0\<rparr>
      \<lparr>r_buf = ar, i_buf = Some ai, ld = 1\<rparr> 1
      \<lparr>r_buf = br, i_buf = Some bi, ld = 1\<rparr> 1
      \<lparr>re = 0, im = 0\<rparr> \<lparr>r_buf = cr, i_buf = Some ci, ld = 1\<rparr> 1
     = Some (Thrown (WrongArg ''csymm'' 2) \<lparr>r_buf = cr, i_buf = Some ci, ld = (1::int)\<rparr>)"
  by (simp add: csymm_def lowerChar_tokens csymm_info_def csymm_left_lower_never_returns)

text \<open>
  C2. Claim: with a valid side, the routine fails with code 2 if and only if the triangle
  is neither upper nor lower, in \<^verbatim>\<open>csymm\<close> and in \<^verbatim>\<open>ssymm\<close>. The code of
  \<^verbatim>\<open>csymm\<close> does the opposite: the triangles \<^verbatim>\<open>u\<close> and \<^verbatim>\<open>l\<close> fail with code 2
  and the token \<^verbatim>\<open>x\<close> passes. \<^verbatim>\<open>ssymm\<close> does what the claim says
  (\<open>ssymm_info_2_iff\<close>).
\<close>

theorem csymm_triangle_check_inverted:
  "csymm ''l'' ''u'' 2 3 alpha
      \<lparr>r_buf = ar, i_buf = Some ai, ld = 2\<rparr> 2
      \<lparr>r_buf = br, i_buf = Some bi, ld = 2\<rparr> 2
      beta \<lparr>r_buf = cr, i_buf = Some ci, ld = 2\<rparr> 2
     = Some (Thrown (WrongArg ''csymm'' 2) \<lparr>r_buf = cr, i_buf = Some ci, ld = 2\<rparr>)
   \<and> csymm ''r'' ''l'' 2 3 alpha
      \<lparr>r_buf = ar, i_buf = Some ai, ld = 3\<rparr> 3
      \<lparr>r_buf = br, i_buf = Some bi, ld = 2\<rparr> 2
      beta \<lparr>r_buf = cr, i_buf = Some ci, ld = 2\<rparr> 2
     = Some (Thrown (WrongArg ''csymm'' 2) \<lparr>r_buf = cr, i_buf = Some ci, ld = 2\<rparr>)
   \<and> csymm ''l'' ''x'' 0 0 alpha
      \<lparr>r_buf = ar, i_buf = Some ai, ld = 1\<rparr> 1
      \<lparr>r_buf = br, i_buf = Some bi, ld = 1\<rparr> 1
      beta \<lparr>r_buf = cr, i_buf = Some ci, ld = 1\<rparr> 1
     = Some (Returned \<lparr>r_buf = cr, i_buf = Some ci, ld = 1\<rparr>)"
  by (simp add: csymm_def lowerChar_tokens csymm_info_def)

text \<open>
  C3. Claim: with alpha = 0, beta = 0 zeroes the active region of \<^verbatim>\<open>c\<close> without
  reading it, and beta outside {0, 1} scales it by beta, in both routines. The code of
  \<^verbatim>\<open>csymm\<close> does otherwise: with alpha = (0,0), beta = (2,0) and C(1,1) = (1,0) the
  call with triangle \<^verbatim>\<open>u\<close> throws with code 2, and the call that line 66 lets through
  leaves C(1,1) = (0,0), not (2,0): line 98 zeroes where beta is not zero.
  \<^verbatim>\<open>ssymm\<close> does what the claim says (\<open>ssymm_alpha_zero_beta_zero\<close>,
  \<open>ssymm_alpha_zero_scales\<close>).
\<close>

theorem csymm_alpha_zero_branches_swapped:
  "csymm ''l'' ''u'' 1 1 \<lparr>re = 0, im = 0\<rparr>
      \<lparr>r_buf = ar, i_buf = Some ai, ld = 1\<rparr> 1
      \<lparr>r_buf = br, i_buf = Some bi, ld = 1\<rparr> 1
      \<lparr>re = 2, im = 0\<rparr> \<lparr>r_buf = cr(1 := 1), i_buf = Some (ci(1 := 0)), ld = 1\<rparr> 1
     = Some (Thrown (WrongArg ''csymm'' 2)
               \<lparr>r_buf = cr(1 := 1::real), i_buf = Some (ci(1 := 0)), ld = 1\<rparr>)
   \<and> csymm ''l'' ''x'' 1 1 \<lparr>re = 0, im = 0\<rparr>
      \<lparr>r_buf = ar, i_buf = Some ai, ld = 1\<rparr> 1
      \<lparr>r_buf = br, i_buf = Some bi, ld = 1\<rparr> 1
      \<lparr>re = 2, im = 0\<rparr> \<lparr>r_buf = cr(1 := 1), i_buf = Some (ci(1 := 0)), ld = 1\<rparr> 1
     = Some (Returned \<lparr>r_buf = cr(1 := 0::real), i_buf = Some (ci(1 := 0)), ld = 1\<rparr>)"
  apply (simp add: csymm_def lowerChar_tokens csymm_info_def csymm_alpha_zero_def setCol_def
      fill_def colOfEx_def upto.simps Let_def)
  apply (auto simp: fun_eq_iff)
  done

text \<open>
  C4. Claim: \<^verbatim>\<open>csymm\<close> with m = n = 1, side left, triangle upper, alpha = (1,0),
  beta = (0,0), A = (5,2) and B = (1,1) returns and leaves C(1,1) = (3,7). The code
  throws with code 2 on this call and leaves \<^verbatim>\<open>c\<close> as it was (line 66); the
  upper-triangle branch it does not reach would give (3,7).
\<close>

theorem csymm_scenario_1x1_throws:
  "csymm ''l'' ''u'' 1 1 \<lparr>re = 1, im = 0\<rparr>
      \<lparr>r_buf = ar(1 := 5), i_buf = Some (ai(1 := 2)), ld = 1\<rparr> 1
      \<lparr>r_buf = br(1 := 1), i_buf = Some (bi(1 := 1)), ld = 1\<rparr> 1
      \<lparr>re = 0, im = 0\<rparr> \<lparr>r_buf = cr, i_buf = Some ci, ld = 1\<rparr> 1
     = Some (Thrown (WrongArg ''csymm'' 2)
               \<lparr>r_buf = cr, i_buf = Some ci, ld = (1::int)\<rparr> :: real outcome)
   \<and> csymm_left_upper 1 1 \<lparr>re = 1, im = 0\<rparr> \<lparr>re = 0, im = 0\<rparr> True
      \<lparr>r_buf = ar(1 := 5), i_buf = Some (ai(1 := 2)), ld = 1\<rparr>
      \<lparr>r_buf = br(1 := 1), i_buf = Some (bi(1 := 1)), ld = 1\<rparr>
      \<lparr>r_buf = cr, i_buf = Some ci, ld = 1\<rparr>
     = \<lparr>r_buf = cr(1 := 3::real), i_buf = Some (ci(1 := 7)), ld = 1\<rparr>"
  by (simp add: csymm_def lowerChar_tokens csymm_info_def csymm_left_upper_def csymm_lu_i_def
      colOfEx_def set_r_def set_i_def i_at_def upto.simps Let_def)

text \<open>
  C5. \<^verbatim>\<open>ssymm\<close> with m = n = 2, side left, triangle upper, alpha = 1, beta = 0, the
  upper triangle of A holding 2, 3, 4 and B the identity returns with C = [[2,3],[3,4]].
  The leading dimensions \<open>la\<close>, \<open>lb\<close>, \<open>lc\<close> are any that are valid, that is at
  least 2; element (i, j) of a matrix is at offset \<open>(j - 1) * ld + i\<close>, so the second
  column of C is at the offsets \<open>lc + 1\<close> and \<open>lc + 2\<close>. The result is the same
  whatever the unreferenced element A(2,1) holds, whatever lies around the matrices (the
  stores \<open>f\<close> and \<open>h\<close>), and whatever C held on entry (the store \<open>g\<close>); the rest
  of the buffer of C is left as it was.
\<close>

theorem ssymm_scenario_2x2_identity:
  assumes "2 \<le> la" "2 \<le> lb" "2 \<le> lc"
  shows "ssymm ''l'' ''u'' 2 2 (1::real)
     \<lparr>r_buf = f(1 := 2, la + 1 := 3, la + 2 := 4), i_buf = ia, ld = la\<rparr> la
     \<lparr>r_buf = h(1 := 1, 2 := 0, lb + 1 := 0, lb + 2 := 1), i_buf = ib, ld = lb\<rparr> lb
     0 \<lparr>r_buf = g, i_buf = ic, ld = lc\<rparr> lc
   = Returned \<lparr>r_buf = g(1 := 2, 2 := 3, lc + 1 := 3, lc + 2 := 4), i_buf = ic, ld = lc\<rparr>"
  using assms
  by (simp add: ssymm_def lowerChar_tokens ssymm_info_def ssymm_left_upper_def ssymm_lu_i_def
      ssymm_lu_k_def colOfEx_def set_r_def upto.simps Let_def)

theorem ssymm_scenario_2x2_identity_witness:
  "(2::int) \<le> 2 \<and>
   ssymm ''l'' ''u'' 2 2 (1::real)
     \<lparr>r_buf = (\<lambda>_. 0)(1 := 2, 3 := 3, 4 := 4), i_buf = None, ld = 2\<rparr> 2
     \<lparr>r_buf = (\<lambda>_. 0)(1 := 1, 2 := 0, 3 := 0, 4 := 1), i_buf = None, ld = 2\<rparr> 2
     0 \<lparr>r_buf = (\<lambda>_. 0), i_buf = None, ld = 2\<rparr> 2
   = Returned \<lparr>r_buf = (\<lambda>_. 0)(1 := 2, 2 := 3, 3 := 3, 4 := 4), i_buf = None, ld = 2\<rparr>"
  using ssymm_scenario_2x2_identity[of 2 2 2 "\<lambda>_. 0" None "\<lambda>_. 0" None "\<lambda>_. 0" None]
  by simp

text \<open>
  C6. Claim: for one logical symmetric A, the call with triangle upper and the call with
  triangle lower on the mirrored storage leave the same C, in both routines and for both
  sides. The code of \<^verbatim>\<open>ssymm\<close> does otherwise when \<^verbatim>\<open>b\<close> and \<^verbatim>\<open>c\<close> have
  different leading dimensions: with m = 1, n = 2, side left, alpha = 1, beta = 0,
  A = [5] (its own mirror), B = [1 1] with leading dimension 1 and C with leading
  dimension 2 holding 9 everywhere, the upper call writes C(1,1) and C(1,2) (offsets 1 and
  3), the lower call writes the offsets 1 and 2 and leaves C(1,2) = 9: line 374 takes the
  column offset into \<^verbatim>\<open>c\<close> from \<^verbatim>\<open>b\<close>. For side right \<^verbatim>\<open>ssymm\<close> does what
  the claim says (\<open>ssymm_right_call_upper_lower_mirror\<close>).
\<close>

theorem ssymm_left_upper_lower_differ:
  "ssymm ''l'' ''u'' 1 2 (1::real)
      \<lparr>r_buf = (\<lambda>_. 0)(1 := 5), i_buf = None, ld = 1\<rparr> 1
      \<lparr>r_buf = (\<lambda>_. 0)(1 := 1, 2 := 1), i_buf = None, ld = 1\<rparr> 1
      0 \<lparr>r_buf = (\<lambda>_. 9), i_buf = None, ld = 2\<rparr> 2
    = Returned \<lparr>r_buf = (\<lambda>_. 9)(1 := 5, 3 := 5), i_buf = None, ld = 2\<rparr>
  \<and> ssymm ''l'' ''l'' 1 2 (1::real)
      \<lparr>r_buf = (\<lambda>_. 0)(1 := 5), i_buf = None, ld = 1\<rparr> 1
      \<lparr>r_buf = (\<lambda>_. 0)(1 := 1, 2 := 1), i_buf = None, ld = 1\<rparr> 1
      0 \<lparr>r_buf = (\<lambda>_. 9), i_buf = None, ld = 2\<rparr> 2
    = Returned \<lparr>r_buf = (\<lambda>_. 9)(1 := 5, 2 := 5), i_buf = None, ld = 2\<rparr>"
  by (simp add: ssymm_def lowerChar_tokens ssymm_info_def ssymm_left_upper_def ssymm_lu_i_def
      ssymm_left_lower_def ssymm_ll_i_def colOfEx_def set_r_def upto.simps Let_def)

text \<open>
  C7. Claim: with beta = 0 the final active region of C does not depend on what C held on
  entry, in the alpha = 0 path and in every branch of both routines. The code of
  \<^verbatim>\<open>ssymm\<close> does otherwise in the left-side lower-triangle branch: two calls with
  m = 1, n = 2, alpha = 1, beta = 0, A = [5], B = [1 1] with leading dimension 1 and C
  with leading dimension 2, that differ only in C on entry (7 everywhere, 8 everywhere),
  end with C(1,2), at offset 3, still 7 in one and 8 in the other (line 374). In the
  other branches of \<^verbatim>\<open>ssymm\<close>, and in this one when \<^verbatim>\<open>b\<close> and \<^verbatim>\<open>c\<close> have the
  same leading dimension, the claim holds (\<open>ssymm_beta_zero_forgets_c\<close>).
\<close>

theorem ssymm_left_lower_beta_zero_keeps_old_c:
  "(\<exists>c1 c2.
      ssymm ''l'' ''l'' 1 2 (1::real)
        \<lparr>r_buf = (\<lambda>_. 0)(1 := 5), i_buf = None, ld = 1\<rparr> 1
        \<lparr>r_buf = (\<lambda>_. 0)(1 := 1, 2 := 1), i_buf = None, ld = 1\<rparr> 1
        0 \<lparr>r_buf = (\<lambda>_. 7), i_buf = None, ld = 2\<rparr> 2 = Returned c1
    \<and> ssymm ''l'' ''l'' 1 2 (1::real)
        \<lparr>r_buf = (\<lambda>_. 0)(1 := 5), i_buf = None, ld = 1\<rparr> 1
        \<lparr>r_buf = (\<lambda>_. 0)(1 := 1, 2 := 1), i_buf = None, ld = 1\<rparr> 1
        0 \<lparr>r_buf = (\<lambda>_. 8), i_buf = None, ld = 2\<rparr> 2 = Returned c2
    \<and> r_buf c1 (colOfEx c1 2 + 1) = 7
    \<and> r_buf c2 (colOfEx c2 2 + 1) = 8)"
  by (simp add: ssymm_def lowerChar_tokens ssymm_info_def ssymm_left_lower_def ssymm_ll_i_def
      colOfEx_def set_r_def upto.simps Let_def)

text \<open>
  C8. Claim: with valid parameters, alpha = 0 and beta = 1 the routine returns at once
  and leaves every buffer as it was, in both routines. The code of \<^verbatim>\<open>csymm\<close> leaves
  the buffers as they were but does not return: the call with side \<^verbatim>\<open>r\<close> and
  triangle \<^verbatim>\<open>l\<close> throws with code 2 (line 66). \<^verbatim>\<open>ssymm\<close> does what the claim says
  (\<open>ssymm_alpha_zero_beta_one\<close>).
\<close>

theorem csymm_alpha_zero_beta_one_throws:
  "csymm ''r'' ''l'' 2 2 \<lparr>re = 0, im = 0\<rparr>
      \<lparr>r_buf = ar, i_buf = Some ai, ld = 2\<rparr> 2
      \<lparr>r_buf = br, i_buf = Some bi, ld = 2\<rparr> 2
      \<lparr>re = 1, im = 0\<rparr> \<lparr>r_buf = cr, i_buf = Some ci, ld = 2\<rparr> 2
     = Some (Thrown (WrongArg ''csymm'' 2)
               \<lparr>r_buf = cr, i_buf = Some ci, ld = (2::int)\<rparr> :: real outcome)"
  by (simp add: csymm_def lowerChar_tokens csymm_info_def)

text \<open>
  C9. Claim: for side right, each column j of C is first seeded with
  alpha * A(j,j) * B(i,j), A(j,j) being read at the offset of row j in column j of A,
  whatever the leading dimensions of A and C, in both routines. The code of
  \<^verbatim>\<open>csymm\<close> reads it at \<^verbatim>\<open>coorCJ + j\<close>, the column offset of C (lines 198-199).
  With m = 1, n = 2, alpha = (1,0), beta = (0,0), A = [[1,3],[3,7]] (leading dimension
  2), B = [0 1] and C with leading dimension 1, the seed of column 2 is taken from offset
  3 of A, which holds A(1,2) = 3, and C(1,2) ends as 3; seeded with A(2,2) = 7 it would
  end as 7. The same holds for the whole call with a triangle token that line 66 lets
  through. \<^verbatim>\<open>ssymm\<close> does what the claim says (\<open>ssymm_right_j_seeds_first\<close>,
  \<open>ssymm_right_seed_value\<close>).
\<close>

theorem csymm_right_diagonal_read_at_c_offset:
  "csymm_right True 1 2 \<lparr>re = 1, im = 0\<rparr> \<lparr>re = 0, im = 0\<rparr> True
      \<lparr>r_buf = (\<lambda>_. 0)(1 := 1, 2 := 3, 3 := 3, 4 := 7), i_buf = Some (\<lambda>_. 0), ld = 2\<rparr>
      \<lparr>r_buf = (\<lambda>_. 0)(1 := 0, 2 := 1), i_buf = Some (\<lambda>_. 0), ld = 1\<rparr>
      \<lparr>r_buf = cr, i_buf = Some ci, ld = 1\<rparr>
     = \<lparr>r_buf = cr(1 := 3, 2 := 3::real), i_buf = Some (ci(1 := 0, 2 := 0)), ld = 1\<rparr>
   \<and> csymm ''r'' ''x'' 1 2 \<lparr>re = 1, im = 0\<rparr>
      \<lparr>r_buf = (\<lambda>_. 0)(1 := 1, 2 := 3, 3 := 3, 4 := 7), i_buf = Some (\<lambda>_. 0), ld = 2\<rparr> 2
      \<lparr>r_buf = (\<lambda>_. 0)(1 := 0, 2 := 1), i_buf = Some (\<lambda>_. 0), ld = 1\<rparr> 1
      \<lparr>re = 0, im = 0\<rparr> \<lparr>r_buf = cr, i_buf = Some ci, ld = 1\<rparr> 1
     = Some (Returned
         \<lparr>r_buf = cr(1 := 3, 2 := 3::real), i_buf = Some (ci(1 := 0, 2 := 0)), ld = 1\<rparr>)"
  by (simp add: csymm_def lowerChar_tokens csymm_info_def csymm_right_def csymm_right_j_def
      csymm_right_seed_def csymm_right_add_def colOfEx_def set_r_def set_i_def i_at_def
      upto.simps Let_def)

text \<open>
  C10. In \<^verbatim>\<open>csymm\<close> the checks for a missing imaginary buffer come first: when one of
  \<^verbatim>\<open>a\<close>, \<^verbatim>\<open>b\<close>, \<^verbatim>\<open>c\<close> has none, the call throws the missing-imaginary error of the
  first of them in the order a, b, c, whatever the selectors, dimensions and leading
  dimensions are, and \<^verbatim>\<open>c\<close> is as it was on entry.
\<close>

theorem csymm_missing_im_first:
  assumes "i_buf a = None \<or> i_buf b = None \<or> i_buf c = None"
  shows "csymm side uplo m n alpha a lda b ldb beta c ldc
         = Some (Thrown (MissingIm (if i_buf a = None then ''a.i''
                                    else if i_buf b = None then ''b.i'' else ''c.i'')) c)"
  using assms by (auto simp: csymm_def)

theorem csymm_missing_im_first_witness:
  "csymm ''x'' ''y'' (- 1) (- 1) \<lparr>re = 1, im = 0\<rparr>
      \<lparr>r_buf = (\<lambda>_. 0), i_buf = Some (\<lambda>_. 0), ld = 0\<rparr> 0
      \<lparr>r_buf = (\<lambda>_. 0), i_buf = None, ld = 0\<rparr> 0
      \<lparr>re = 0, im = 0\<rparr> \<lparr>r_buf = (\<lambda>_. 4), i_buf = None, ld = 0\<rparr> 0
     = Some (Thrown (MissingIm ''b.i'')
               \<lparr>r_buf = (\<lambda>_. 4::real), i_buf = None, ld = 0\<rparr>)"
  using csymm_missing_im_first
    [of "\<lparr>r_buf = (\<lambda>_. 0), i_buf = Some (\<lambda>_. 0), ld = 0\<rparr>"
        "\<lparr>r_buf = (\<lambda>_. 0), i_buf = None, ld = 0\<rparr>"
        "\<lparr>r_buf = (\<lambda>_. 4::real), i_buf = None, ld = 0\<rparr>"
        "''x''" "''y''" "- 1" "- 1" "\<lparr>re = 1, im = 0\<rparr>" 0 0 "\<lparr>re = 0, im = 0\<rparr>" 0]
  by simp

end
